theory Spec2Isabelle
  imports Main "HOL-Library.Word" "HOL-Library.Char_ord" "HOL-Library.List_Lexorder"
begin

unbundle bit_operations_syntax

section \<open>Path-prefix routing (utils.go)\<close>

text \<open>
  Go strings are byte sequences; a \<open>string\<close> here is a list of 8-bit characters.
  The two functions of Go's standard \<open>strings\<close> package that utils.go calls are
  written out first: \<open>strings.HasPrefix\<close>, and \<open>strings.Replace\<close> with the count
  fixed to 1, as every call in utils.go has it.
\<close>

definition HasPrefix :: "string \<Rightarrow> string \<Rightarrow> bool" where
  "HasPrefix s pre = (length pre \<le> length s \<and> take (length pre) s = pre)"

text \<open>\<open>strings.Index\<close>: the position of the first occurrence of \<open>sub\<close>, if any.\<close>

fun Index :: "string \<Rightarrow> string \<Rightarrow> nat option" where
  "Index [] sub = (if sub = [] then Some 0 else None)"
| "Index (c # cs) sub =
     (if HasPrefix (c # cs) sub then Some 0 else map_option Suc (Index cs sub))"

text \<open>
  \<open>strings.Replace(s, old, new, 1)\<close>: \<open>s\<close> itself when \<open>old = new\<close> or \<open>old\<close>
  does not occur, otherwise \<open>s\<close> with the first occurrence of \<open>old\<close> replaced.
\<close>

definition Replace1 :: "string \<Rightarrow> string \<Rightarrow> string \<Rightarrow> string" where
  "Replace1 s old new =
     (if old = new then s
      else case Index s old of
             None \<Rightarrow> s
           | Some j \<Rightarrow> take j s @ new @ drop (j + length old) s)"

definition VFSPrefix :: string where
  "VFSPrefix = ''vfs://''"

definition IsVFSPath :: "string \<Rightarrow> bool" where
  "IsVFSPath path = (if HasPrefix path VFSPrefix then True else False)"

definition convertVFSPath :: "string \<Rightarrow> string" where
  "convertVFSPath path = Replace1 path VFSPrefix ''/''"

definition ConvertVFSPath :: "string \<Rightarrow> string \<times> bool" where
  "ConvertVFSPath path =
     (if IsVFSPath path then (convertVFSPath path, True) else (path, False))"

definition MakeVFSPath :: "string \<Rightarrow> string" where
  "MakeVFSPath path =
     (let vfsPath = Replace1 path ''/'' VFSPrefix
      in if vfsPath = path then VFSPrefix @ path else vfsPath)"

section \<open>Path helpers of package vfs\<close>

text \<open>
  Modelled from the spec: the path helpers \<open>Clean\<close>, \<open>Split\<close>, \<open>Join\<close>,
  \<open>IsAbs\<close>, \<open>Dir\<close> and \<open>Base\<close> that vfs.go calls live in a file of package vfs
  that is not among the sources. The spec (section 4.1) says that paths use \<open>/\<close> as
  separator and are normalised by lexical cleaning, which collapses \<open>//\<close> and resolves
  \<open>.\<close> and \<open>..\<close> segments without touching the filesystem, and that \<open>..\<close> in a
  cleaned absolute path never escapes the root (section 9). The definitions below follow
  that description and the functions of the same names in Go's \<open>path\<close> package.
  \<open>split_on\<close> is \<open>strings.Split\<close> with a one-byte separator and \<open>TrimLeft\<close> is
  \<open>strings.TrimLeft\<close> with a one-byte cutset, both of Go's standard library.
  The helper \<open>Dir\<close> is named \<open>PathDir\<close> here, since \<open>Dir\<close> is also a field
  of an inode.
\<close>

fun split_on :: "char \<Rightarrow> string \<Rightarrow> string list" where
  "split_on sep [] = [[]]"
| "split_on sep (c # cs) =
     (if c = sep then [] # split_on sep cs
      else case split_on sep cs of
             [] \<Rightarrow> [[c]]
           | w # ws \<Rightarrow> (c # w) # ws)"

fun join_with :: "string \<Rightarrow> string list \<Rightarrow> string" where
  "join_with sep [] = []"
| "join_with sep [w] = w"
| "join_with sep (w # ws) = w @ sep @ join_with sep ws"

definition TrimLeft :: "string \<Rightarrow> char \<Rightarrow> string" where
  "TrimLeft s c = dropWhile (\<lambda>x. x = c) s"

definition IsAbs :: "string \<Rightarrow> bool" where
  "IsAbs path = (case path of [] \<Rightarrow> False | c # _ \<Rightarrow> c = CHR ''/'')"

text \<open>
  One step of cleaning: an empty or \<open>.\<close> element is dropped; \<open>..\<close> removes the
  element before it when there is one that is not itself \<open>..\<close>, is dropped at the root
  of an absolute path and is kept in front of a relative one.
\<close>

definition clean_step :: "bool \<Rightarrow> string list \<Rightarrow> string \<Rightarrow> string list" where
  "clean_step rooted acc c =
     (if c = [] \<or> c = ''.'' then acc
      else if c = ''..'' then
        (if acc \<noteq> [] \<and> last acc \<noteq> ''..'' then butlast acc
         else if rooted then acc
         else acc @ [c])
      else acc @ [c])"

definition Clean :: "string \<Rightarrow> string" where
  "Clean path =
     (if path = [] then ''.''
      else
        let rooted = IsAbs path;
            out = join_with ''/'' (foldl (clean_step rooted) [] (split_on CHR ''/'' path))
        in if rooted then CHR ''/'' # out
           else if out = [] then ''.''
           else out)"

text \<open>\<open>Split\<close> cuts a path after its last \<open>/\<close>: directory part and file name.\<close>

definition Split :: "string \<Rightarrow> string \<times> string" where
  "Split path =
     (let file = rev (takeWhile (\<lambda>x. x \<noteq> CHR ''/'') (rev path))
      in (take (length path - length file) path, file))"

definition Join :: "string \<Rightarrow> string \<Rightarrow> string" where
  "Join a b =
     (if a = [] \<and> b = [] then []
      else if a = [] then Clean b
      else Clean (a @ ''/'' @ b))"

definition PathDir :: "string \<Rightarrow> string" where
  "PathDir path = Clean (fst (Split path))"

definition Base :: "string \<Rightarrow> string" where
  "Base path =
     (if path = [] then ''.''
      else
        let p = rev (dropWhile (\<lambda>x. x = CHR ''/'') (rev path));
            b = snd (Split p)
        in if b = [] then ''/'' else b)"

text \<open>
  Modelled from the spec: \<open>inode.Abs(cwd, name)\<close> of the absent package inode. The
  spec lists \<open>abs\<close> among the operations without describing it; the definition follows
  \<open>FileSystem.Abs\<close> of vfs.go, which returns the cleaned path when it starts with the
  separator and joins the working directory with it otherwise.
\<close>

definition Abs :: "string \<Rightarrow> string \<Rightarrow> string" where
  "Abs cwd' path = (if HasPrefix path ''/'' then Clean path else Join cwd' path)"

section \<open>Errors\<close>

text \<open>
  The error values vfs.go returns: the \<open>syscall\<close> numbers and the sentinel errors of
  package \<open>os\<close> it names, errors made from a text, and the wrappers \<open>os.PathError\<close>
  and \<open>os.LinkError\<close>. A run-time panic (an index out of range, a nil dereference) ends
  a call without an error return; it is the value \<open>Panic\<close>. A fatal error of the Go
  runtime ends the whole process and cannot be recovered; it is the value \<open>Fatal\<close>.
\<close>

datatype errno =
    ENOENT | EEXIST | EISDIR | ENOTDIR
  | ErrInvalid | ErrPermission | ErrExist | ErrNotExist | ErrClosed
  | ErrText string

datatype error =
    Errno errno
  | PathError string string errno
  | LinkError string string string errno
  | Panic
  | Fatal

section \<open>Inodes (package inode)\<close>

text \<open>
  Modelled from the spec: package inode is not among the sources. Section 3 of the spec
  gives an inode its number, \<open>mode\<close>, \<open>uid\<close>, \<open>gid\<close>, \<open>size\<close>, \<open>nlink\<close> and,
  for a directory, \<open>dir\<close>, an ordered mapping from entry name to child inode. Inodes are
  shared through pointers in the Go code; here the heap of inodes is a function from
  inode numbers to inodes, and a pointer to an inode is its number. Timestamps are left
  out: they are read from the clock and no operation below depends on them.
\<close>

type_synonym FileMode = "32 word"

record Inode =
  Mode :: FileMode
  Nlink :: nat
  Size :: int
  Uid :: "32 word"
  Gid :: "32 word"
  Dir :: "(string \<times> nat) list"

text \<open>The type bits of \<open>os.FileMode\<close>: \<open>os.ModeDir\<close> and \<open>os.ModeSymlink\<close>.\<close>

definition ModeDir :: FileMode where
  "ModeDir = push_bit 31 1"

definition ModeSymlink :: FileMode where
  "ModeSymlink = push_bit 27 1"

definition IsDir :: "Inode \<Rightarrow> bool" where
  "IsDir n = (Mode n AND ModeDir \<noteq> 0)"

text \<open>
  Modelled from the spec: the allocator (section 4.2). \<open>new(mode)\<close> returns the next
  inode number and initialises the mode; \<open>new_dir(mode)\<close> additionally creates the
  \<open>.\<close> and \<open>..\<close> bindings, both to the directory itself; \<open>rollback()\<close> decrements
  the counter. \<open>Ino_New\<close> returns the new counter and the inode it names.
\<close>

definition Ino_New :: "nat \<Rightarrow> FileMode \<Rightarrow> nat \<times> Inode" where
  "Ino_New n mode =
     (Suc n, \<lparr>Mode = mode, Nlink = 0, Size = 0, Uid = 0, Gid = 0, Dir = []\<rparr>)"

definition Ino_NewDir :: "nat \<Rightarrow> FileMode \<Rightarrow> nat \<times> Inode" where
  "Ino_NewDir n mode =
     (Suc n, \<lparr>Mode = ModeDir OR mode, Nlink = 0, Size = 0, Uid = 0, Gid = 0,
               Dir = [(''.'', Suc n), (''..'', Suc n)]\<rparr>)"

definition Ino_SubIno :: "nat \<Rightarrow> nat" where
  "Ino_SubIno n = n - 1"

text \<open>
  Modelled from the spec: path resolution (section 4.1). From a starting inode \<open>W\<close>:
  an absolute path starts at the root, any other at \<open>W\<close>; the path is split into its
  non-empty segments; at each segment, resolution fails with \<open>NOT_A_DIRECTORY\<close> when the
  current inode is not a directory and with \<open>NO_SUCH_ENTRY\<close> when the entry is not found,
  and descends otherwise. The final inode is returned without following a symlink.
\<close>

fun descend :: "(nat \<Rightarrow> Inode) \<Rightarrow> nat \<Rightarrow> string list \<Rightarrow> errno + nat" where
  "descend ns cur [] = Inr cur"
| "descend ns cur (s # ss) =
     (if \<not> IsDir (ns cur) then Inl ENOTDIR
      else case map_of (Dir (ns cur)) s of
             None \<Rightarrow> Inl ENOENT
           | Some c \<Rightarrow> descend ns c ss)"

definition Resolve :: "(nat \<Rightarrow> Inode) \<Rightarrow> nat \<Rightarrow> nat \<Rightarrow> string \<Rightarrow> errno + nat" where
  "Resolve ns rt W path =
     descend ns (if IsAbs path then rt else W)
       (filter (\<lambda>s. s \<noteq> []) (split_on CHR ''/'' path))"

text \<open>
  Modelled from the spec: linking and unlinking (section 4.1). \<open>link(name, child)\<close>
  inserts an entry into a directory and fails with \<open>EXISTS\<close> when the name is already
  present; \<open>unlink(name)\<close> removes the named entry and fails with \<open>NO_SUCH_ENTRY\<close> when
  it is absent. The directory is an ordered mapping, so an entry is inserted at its place
  in the order of names. The link count of the child counts the entries that name it,
  the structural entries \<open>.\<close> and \<open>..\<close> apart. The caller of \<open>new_dir\<close> patches
  \<open>..\<close> when it attaches the directory to a parent (section 4.2), which it does by
  linking \<open>..\<close> again: that one name is rebound instead of refused.
\<close>

definition structural :: "string \<Rightarrow> bool" where
  "structural name' = (name' = ''.'' \<or> name' = ''..'')"

fun insert_entry :: "string \<times> nat \<Rightarrow> (string \<times> nat) list \<Rightarrow> (string \<times> nat) list" where
  "insert_entry e [] = [e]"
| "insert_entry e (x # xs) = (if fst e \<le> fst x then e # x # xs else x # insert_entry e xs)"

definition count_up :: "(nat \<Rightarrow> Inode) \<Rightarrow> nat \<Rightarrow> (nat \<Rightarrow> Inode)" where
  "count_up ns c = ns(c := (ns c)\<lparr>Nlink := Suc (Nlink (ns c))\<rparr>)"


definition Link :: "(nat \<Rightarrow> Inode) \<Rightarrow> nat \<Rightarrow> string \<Rightarrow> nat \<Rightarrow> (nat \<Rightarrow> Inode) \<times> errno option" where
  "Link ns parent name' child =
     (if name' = ''..'' then
        (ns(parent := (ns parent)
              \<lparr>Dir := insert_entry (name', child)
                        (filter (\<lambda>e. fst e \<noteq> name') (Dir (ns parent)))\<rparr>), None)
      else if name' \<in> fst ` set (Dir (ns parent)) then (ns, Some EEXIST)
      else
        let ns1 = ns(parent := (ns parent)
                       \<lparr>Dir := insert_entry (name', child) (Dir (ns parent))\<rparr>)
        in (if structural name' then ns1 else count_up ns1 child, None))"


section \<open>The filesystem (vfs.go)\<close>

text \<open>
  Modelled from the spec: the flag and permission constants of the absent package absfs,
  which vfs.go reads as \<open>absfs.O_ACCESS\<close>, \<open>absfs.O_APPEND\<close>, \<open>absfs.O_CREATE\<close>,
  \<open>absfs.O_TRUNC\<close>, \<open>absfs.OS_ALL_R\<close> and \<open>absfs.OS_ALL_W\<close>. The spec
  (section 4.4) makes the access mode a single selector (read-only, write-only,
  read-write) and \<open>APPEND\<close>, \<open>CREATE\<close>, \<open>EXCLUSIVE\<close> and \<open>TRUNCATE\<close> independent
  flags. The values are those of Go's package \<open>os\<close> on Linux, whose \<open>O_RDONLY\<close>,
  \<open>O_WRONLY\<close>, \<open>O_RDWR\<close> and \<open>O_EXCL\<close> vfs.go uses beside them; the read and
  write masks are the three read bits and the three write bits of a Unix mode.
  A flag argument is a Go \<open>int\<close>, 64 bits wide.
\<close>

definition O_RDONLY :: "64 word" where "O_RDONLY = 0"
definition O_WRONLY :: "64 word" where "O_WRONLY = 1"
definition O_RDWR :: "64 word" where "O_RDWR = 2"
definition O_ACCESS :: "64 word" where "O_ACCESS = 3"
definition O_CREATE :: "64 word" where "O_CREATE = 64"
definition O_EXCL :: "64 word" where "O_EXCL = 128"
definition O_TRUNC :: "64 word" where "O_TRUNC = 512"
definition O_APPEND :: "64 word" where "O_APPEND = 1024"

definition OS_ALL_R :: FileMode where "OS_ALL_R = 292"
definition OS_ALL_W :: FileMode where "OS_ALL_W = 146"

text \<open>
  Modelled from the spec: the open-file handle and the sealed file record, whose types
  are declared in a file of package vfs that is not among the sources. vfs.go builds a
  handle from the fields \<open>fs\<close>, \<open>name\<close>, \<open>flags\<close>, \<open>node\<close> and \<open>data\<close> and sets
  its \<open>offset\<close>; a sealed record holds a ciphertext and a sealed key (section 3 of
  the spec) and the handle \<open>f\<close> last opened on it. The handle's \<open>node\<close> is the number
  of its inode; its \<open>data\<close> is the index of its sealed record in the payload store, or
  \<open>None\<close> for a nil pointer. A nil ciphertext or key is \<open>None\<close>.
\<close>

record File =
  f_name :: string
  f_flags :: "64 word"
  f_node :: nat
  f_data :: "nat option"
  f_offset :: int

record sealedFile =
  sf_ciphertext :: "8 word list option"
  sf_key :: "8 word list option"
  sf_f :: "File option"

definition new_sealedFile :: sealedFile where
  "new_sealedFile = \<lparr>sf_ciphertext = None, sf_key = None, sf_f = None\<rparr>"

text \<open>
  The \<open>FileSystem\<close> struct. \<open>root\<close> and \<open>dir\<close> point to inodes, so they are inode
  numbers; \<open>ino\<close> is the allocator's counter; \<open>symlinks\<close> is a Go map, where a missing
  key reads as the empty string; \<open>data\<close> is a slice of pointers, \<open>None\<close> for nil;
  \<open>nodes\<close> is the heap of inodes. The mutex is left out: the model runs one call at
  a time.
\<close>

record FileSystem =
  Umask :: FileMode
  Tempdir :: string
  root :: nat
  cwd :: string
  dir :: nat
  ino :: nat
  symlinks :: "nat \<Rightarrow> string option"
  data :: "sealedFile option list"
  nodes :: "nat \<Rightarrow> Inode"

definition no_inode :: Inode where
  "no_inode = \<lparr>Mode = 0, Nlink = 0, Size = 0, Uid = 0, Gid = 0, Dir = []\<rparr>"

definition NewFS :: FileSystem where
  "NewFS =
     (let (n, rootdir) = Ino_NewDir 0 493
      in \<lparr>Umask = 493, Tempdir = ''/tmp'', root = n, cwd = ''/'', dir = n, ino = n,
          symlinks = (\<lambda>_. None), data = [None, None],
          nodes = (\<lambda>_. no_inode)(n := rootdir)\<rparr>)"

text \<open>\<open>fs.data[i]\<close>: a read out of range panics.\<close>

definition data_at :: "sealedFile option list \<Rightarrow> nat \<Rightarrow> error + sealedFile option" where
  "data_at ds i = (if i < length ds then Inr (ds ! i) else Inl Panic)"

text \<open>\<open>fs.symlinks[i]\<close>: a missing key reads as the empty string.\<close>

definition symlink_at :: "FileSystem \<Rightarrow> nat \<Rightarrow> string" where
  "symlink_at fs i = (case symlinks fs i of None \<Rightarrow> [] | Some t \<Rightarrow> t)"

text \<open>
  \<open>OpenFile\<close>, lines 232 to 253: the part every path other than \<open>/\<close> and \<open>.\<close>
  ends with, once \<open>node\<close> is known.
\<close>

definition open_node :: "FileSystem \<Rightarrow> string \<Rightarrow> 64 word \<Rightarrow> nat \<Rightarrow> FileSystem \<times> (error + File)" where
  "open_node fs name' flag node =
     (let appendFile = (flag AND O_APPEND \<noteq> 0);
          access = flag AND O_ACCESS;
          create = (flag AND O_CREATE \<noteq> 0);
          truncate = (flag AND O_TRUNC \<noteq> 0)
      in case data_at (data fs) node of
           Inl e \<Rightarrow> (fs, Inl e)
         | Inr data' \<Rightarrow>
             if \<not> create \<and>
                (access = O_RDONLY \<and> Mode (nodes fs node) AND OS_ALL_R = 0 \<or>
                 access = O_WRONLY \<and> Mode (nodes fs node) AND OS_ALL_W = 0 \<or>
                 access = O_RDWR \<and> Mode (nodes fs node) AND (OS_ALL_W OR OS_ALL_R) = 0)
             then (fs, Inl (PathError ''open'' name' ErrPermission))
             else
               (case data' of
                  None \<Rightarrow>
                    (fs, Inr \<lparr>f_name = name', f_flags = flag, f_node = node,
                              f_data = None, f_offset = 0\<rparr>)
                | Some sf \<Rightarrow>
                    let fs1 = (if truncate
                               then fs\<lparr>nodes := (nodes fs)(node := (nodes fs node)\<lparr>Size := 0\<rparr>)\<rparr>
                               else fs);
                        file = \<lparr>f_name = name', f_flags = flag, f_node = node,
                                f_data = Some node,
                                f_offset = (if appendFile then Size (nodes fs1 node) else 0)\<rparr>
                    in (fs1\<lparr>data := (data fs1)[node := Some (sf\<lparr>sf_f := Some file\<rparr>)]\<rparr>,
                        Inr file)))"

text \<open>
  \<open>OpenFile\<close>, lines 200 to 216 and then 232 to 253: the path exists and resolves
  to \<open>node\<close>.
\<close>

definition open_existing :: "FileSystem \<Rightarrow> string \<Rightarrow> 64 word \<Rightarrow> nat \<Rightarrow> FileSystem \<times> (error + File)" where
  "open_existing fs name' flag node =
     (let access = flag AND O_ACCESS;
          create = (flag AND O_CREATE \<noteq> 0);
          truncate = (flag AND O_TRUNC \<noteq> 0)
      in if create \<and> flag AND O_EXCL \<noteq> 0
         then (fs, Inl (PathError ''open'' name' EEXIST))
         else if IsDir (nodes fs node) \<and> (access \<noteq> O_RDONLY \<or> truncate)
         then (fs, Inl (PathError ''open'' name' EISDIR))
         else if truncate then
           (case data_at (data fs) node of
              Inl e \<Rightarrow> (fs, Inl e)
            | Inr None \<Rightarrow> (fs, Inl Panic)
            | Inr (Some sf) \<Rightarrow>
                open_node
                  (fs\<lparr>data := (data fs)
                         [node := Some (sf\<lparr>sf_ciphertext := None, sf_key := None\<rparr>)]\<rparr>)
                  name' flag node)
         else open_node fs name' flag node)"

text \<open>
  \<open>OpenFile\<close>, lines 197 to 199 and 217 to 231, and then 232 to 253: the path does
  not exist, and its parent resolves to \<open>parent\<close>.
\<close>

definition open_create ::
  "FileSystem \<Rightarrow> string \<Rightarrow> 64 word \<Rightarrow> FileMode \<Rightarrow> nat \<Rightarrow> string \<Rightarrow> FileSystem \<times> (error + File)" where
  "open_create fs name' flag perm parent filename =
     (if \<not> (flag AND O_CREATE \<noteq> 0)
      then (fs, Inl (PathError ''open'' name' ENOENT))
      else
        let (n, node) = Ino_New (ino fs) (Umask fs AND perm);
            (ns, err) = Link ((nodes fs)(n := node)) parent filename n
        in case err of
             Some e \<Rightarrow> (fs\<lparr>ino := Ino_SubIno n\<rparr>, Inl (PathError ''open'' name' e))
           | None \<Rightarrow>
               open_node
                 (fs\<lparr>ino := n, nodes := ns, data := data fs @ [Some new_sealedFile]\<rparr>)
                 name' flag n)"

definition OpenFile :: "FileSystem \<Rightarrow> string \<Rightarrow> 64 word \<Rightarrow> FileMode \<Rightarrow> FileSystem \<times> (error + File)" where
  "OpenFile fs name' flag perm =
     (if name' = ''/'' then
        (case data_at (data fs) (root fs) of
           Inl e \<Rightarrow> (fs, Inl e)
         | Inr data' \<Rightarrow>
             (fs, Inr \<lparr>f_name = name', f_flags = flag, f_node = root fs,
                       f_data = (case data' of None \<Rightarrow> None | Some _ \<Rightarrow> Some (root fs)),
                       f_offset = 0\<rparr>))
      else
        let appendFile = (flag AND O_APPEND \<noteq> 0) in
        if name' = ''.'' then
          (case data_at (data fs) (dir fs) of
             Inl e \<Rightarrow> (fs, Inl e)
           | Inr None \<Rightarrow>
               (fs, Inr \<lparr>f_name = name', f_flags = flag, f_node = dir fs,
                         f_data = None, f_offset = 0\<rparr>)
           | Inr (Some sf) \<Rightarrow>
               let file = \<lparr>f_name = name', f_flags = flag, f_node = dir fs,
                           f_data = Some (dir fs),
                           f_offset = (if appendFile then Size (nodes fs (dir fs)) else 0)\<rparr>
               in (fs\<lparr>data := (data fs)[dir fs := Some (sf\<lparr>sf_f := Some file\<rparr>)]\<rparr>,
                   Inr file))
        else
          let wd = (if IsAbs name' then root fs else dir fs);
              found = Resolve (nodes fs) (root fs) wd name';
              (dir', filename) = Split name'
          in case Resolve (nodes fs) (root fs) wd (Clean dir') of
               Inl err \<Rightarrow> (fs, Inl (Errno err))
             | Inr parent \<Rightarrow>
                 (case found of
                    Inr node \<Rightarrow> open_existing fs name' flag node
                  | Inl _ \<Rightarrow> open_create fs name' flag perm parent filename))"

definition Open :: "FileSystem \<Rightarrow> string \<Rightarrow> FileSystem \<times> (error + File)" where
  "Open fs name' = OpenFile fs name' O_RDONLY 0"

definition Create :: "FileSystem \<Rightarrow> string \<Rightarrow> FileSystem \<times> (error + File)" where
  "Create fs name' = OpenFile fs name' (O_CREATE OR O_RDWR OR O_TRUNC) 420"

text \<open>
  \<open>Truncate\<close>. After its first check the function reads the sealed record of the
  file, decrypts it, resizes the plaintext and seals it again under a fresh random key,
  with the packages memguard, core and fastrand, none of which is among the sources:
  lines 261 to 322 are the parameter \<open>resize\<close>. The size is an \<open>int64\<close>.
\<close>

definition Truncate ::
  "(FileSystem \<Rightarrow> string \<Rightarrow> 64 word \<Rightarrow> FileSystem \<times> error option) \<Rightarrow>
   FileSystem \<Rightarrow> string \<Rightarrow> 64 word \<Rightarrow> FileSystem \<times> error option" where
  "Truncate resize fs name' size' =
     (if sint size' < 0 then (fs, Some (PathError ''truncate'' name' ErrClosed))
      else resize fs name' size')"

text \<open>
  The kind of an error, as Go's predicates read it: the error a \<open>PathError\<close> or a
  \<open>LinkError\<close> wraps decides. \<open>IsInvalid\<close> is \<open>errors.Is(err, os.ErrInvalid)\<close>,
  the kind of an invalid argument; \<open>IsNotExist\<close>, \<open>IsExist\<close> and \<open>IsPermission\<close>
  are the predicates of utils.go, which pass the error on to package \<open>os\<close>.
\<close>

fun underlying :: "error \<Rightarrow> errno option" where
  "underlying (Errno e) = Some e"
| "underlying (PathError _ _ e) = Some e"
| "underlying (LinkError _ _ _ e) = Some e"
| "underlying Panic = None"
| "underlying Fatal = None"

definition IsInvalid :: "error \<Rightarrow> bool" where
  "IsInvalid err = (underlying err = Some ErrInvalid)"

definition IsNotExist :: "error \<Rightarrow> bool" where
  "IsNotExist err = (underlying err = Some ENOENT \<or> underlying err = Some ErrNotExist)"

definition IsExist :: "error \<Rightarrow> bool" where
  "IsExist err = (underlying err = Some EEXIST \<or> underlying err = Some ErrExist)"

definition IsPermission :: "error \<Rightarrow> bool" where
  "IsPermission err = (underlying err = Some ErrPermission)"

text \<open>
  \<open>Mkdir\<close>. The results of the two \<open>Link\<close> calls are dropped, as in the source.
\<close>

definition Mkdir :: "FileSystem \<Rightarrow> string \<Rightarrow> FileMode \<Rightarrow> FileSystem \<times> error option" where
  "Mkdir fs name' perm =
     (let wd = (if IsAbs name' then root fs else dir fs);
          abs' = (if IsAbs name' then name' else Join (cwd fs) name')
      in case Resolve (nodes fs) (root fs) wd name' of
           Inr _ \<Rightarrow> (fs, Some (PathError ''mkdir'' name' ErrExist))
         | Inl _ \<Rightarrow>
             let (dir', filename) = Split abs';
                 dir2 = Clean dir'
             in (case (if dir2 \<noteq> ''/''
                      then Resolve (nodes fs) (root fs) (root fs) (TrimLeft dir2 CHR ''/'')
                      else Inr (root fs)) of
                  Inl err \<Rightarrow> (fs, Some (PathError ''mkdir'' dir2 err))
                | Inr parent \<Rightarrow>
                    let (n, child) = Ino_NewDir (ino fs) (Umask fs AND perm);
                        ns1 = fst (Link ((nodes fs)(n := child)) parent filename n);
                        ns2 = fst (Link ns1 n ''..'' parent)
                    in (fs\<lparr>ino := n, nodes := ns2,
                            data := data fs @ [Some new_sealedFile]\<rparr>, None)))"

text \<open>
  \<open>MkdirAll\<close>. The loop runs \<open>Mkdir\<close> on each prefix and drops what it returns. The
  model keeps the dropped results in a list beside the state, so that properties can
  speak of them; \<open>MkdirAll\<close> itself returns the state and \<open>nil\<close>.
\<close>

fun MkdirAll_loop ::
  "FileSystem \<Rightarrow> FileMode \<Rightarrow> string \<Rightarrow> string list \<Rightarrow> FileSystem \<times> error option list" where
  "MkdirAll_loop fs perm path [] = (fs, [])"
| "MkdirAll_loop fs perm path (p # ps) =
     (let path' = Join path (if p = [] then ''/'' else p);
          (fs1, dropped) = Mkdir fs path' perm;
          (fs2, rest) = MkdirAll_loop fs1 perm path' ps
      in (fs2, dropped # rest))"

definition MkdirAll :: "FileSystem \<Rightarrow> string \<Rightarrow> FileMode \<Rightarrow> FileSystem \<times> error option" where
  "MkdirAll fs name' perm =
     (fst (MkdirAll_loop fs perm [] (split_on CHR ''/'' (Abs (cwd fs) name'))), None)"

text \<open>
  The values \<open>path\<close> takes in the loop of \<open>MkdirAll\<close>, in order: the paths on which
  \<open>Mkdir\<close> is called.
\<close>

fun MkdirAll_paths :: "string \<Rightarrow> string list \<Rightarrow> string list" where
  "MkdirAll_paths path [] = []"
| "MkdirAll_paths path (p # ps) =
     (let path' = Join path (if p = [] then ''/'' else p)
      in path' # MkdirAll_paths path' ps)"














text \<open>
  \<open>fileStat\<close> calls itself on the target of a symlink, with nothing that bounds the
  number of calls: a call that does not return is the value \<open>None\<close>.
\<close>

partial_function (option) fileStat :: "FileSystem \<Rightarrow> string \<Rightarrow> string \<Rightarrow> (error + nat) option" where
  "fileStat fs cwd' name' =
     (let name1 = Abs cwd' name';
          name2 = (if name1 \<noteq> ''/'' then TrimLeft name1 CHR ''/'' else name1)
      in case Resolve (nodes fs) (root fs) (root fs) name2 of
           Inl err \<Rightarrow> Some (Inl (PathError ''stat'' name2 err))
         | Inr node \<Rightarrow>
             if Mode (nodes fs node) AND ModeSymlink = 0 then Some (Inr node)
             else fileStat fs (PathDir name2) (symlink_at fs node))"

declare fileStat.simps [code]

text \<open>
  A \<open>FileInfo\<close> is a name and an inode: the pair of the name and the inode's number.
\<close>

type_synonym FileInfo = "string \<times> nat"

definition Stat :: "FileSystem \<Rightarrow> string \<Rightarrow> (error + FileInfo) option" where
  "Stat fs name' =
     (if name' = ''/'' then Some (Inr (''/'', root fs))
      else case fileStat fs (cwd fs) name' of
             None \<Rightarrow> None
           | Some (Inl err) \<Rightarrow> Some (Inl err)
           | Some (Inr node) \<Rightarrow> Some (Inr (Base name', node)))"

definition Lstat :: "FileSystem \<Rightarrow> string \<Rightarrow> error + FileInfo" where
  "Lstat fs name' =
     (if name' = ''/'' then Inr (''/'', root fs)
      else
        let name1 = Abs (cwd fs) name'
        in case Resolve (nodes fs) (root fs) (root fs) (TrimLeft name1 CHR ''/'') of
             Inl err \<Rightarrow> Inl (PathError ''remove'' name1 err)
           | Inr node \<Rightarrow> Inr (Base name1, node))"

text \<open>
  The mutex of the filesystem is a \<open>sync.RWMutex\<close> of Go's standard library. Its state
  is the reader count: \<open>RLock\<close> adds one to it, and \<open>Unlock\<close> adds
  \<open>rwmutexMaxReaders\<close>, which \<open>Lock\<close> had subtracted, and stops the process with
  the fatal error \<open>sync: Unlock of unlocked RWMutex\<close> when the sum shows that no
  writer held the mutex. The calls whose lock and unlock are paired leave the mutex as
  they found it and are modelled without it; the model runs one call at a time, so a
  call finds the mutex in its zero state.
\<close>

definition rwmutexMaxReaders :: int where
  "rwmutexMaxReaders = 2 ^ 30"

definition RWMutex_RLock :: "int \<Rightarrow> int" where
  "RWMutex_RLock readerCount = readerCount + 1"

definition RWMutex_Unlock :: "int \<Rightarrow> error + int" where
  "RWMutex_Unlock readerCount =
     (let r = readerCount + rwmutexMaxReaders
      in if r \<ge> rwmutexMaxReaders then Inl Fatal else Inr r)"

text \<open>
  \<open>Readlink\<close>. After the path has resolved, the call takes the read lock and defers
  the write unlock; the deferred call runs when the function returns, after the result
  has been read from the table of symlinks.
\<close>

definition Readlink :: "FileSystem \<Rightarrow> string \<Rightarrow> error + string" where
  "Readlink fs name' =
     (case (if name' = ''/'' then Inr (root fs)
            else (case Resolve (nodes fs) (root fs) (root fs) (TrimLeft name' CHR ''/'') of
                    Inl err \<Rightarrow> Inl (Errno err)
                  | Inr node \<Rightarrow> Inr node)) of
        Inl err \<Rightarrow> Inl err
      | Inr ino' \<Rightarrow>
          let mtx = RWMutex_RLock 0;
              result = symlink_at fs ino'
          in (case RWMutex_Unlock mtx of
                Inl fatal \<Rightarrow> Inl fatal
              | Inr _ \<Rightarrow> Inr result))"

definition Symlink :: "FileSystem \<Rightarrow> string \<Rightarrow> string \<Rightarrow> FileSystem \<times> error option" where
  "Symlink fs oldname newname =
     (let wd = (if IsAbs newname then root fs else dir fs);
          found = Resolve (nodes fs) (root fs) wd newname
      in if (case found of
               Inr newNode \<Rightarrow> Mode (nodes fs newNode) AND ModeSymlink = 0
             | Inl _ \<Rightarrow> False)
         then (fs, Some (PathError ''symlink'' newname EEXIST))
         else
           (case Resolve (nodes fs) (root fs) wd oldname of
             Inl _ \<Rightarrow> (fs, Some (PathError ''symlink'' oldname ENOENT))
           | Inr oldNode \<Rightarrow>
               (case found of
                  Inr newNode \<Rightarrow>
                    (fs\<lparr>nodes := (nodes fs)
                            (newNode := (nodes fs newNode)
                               \<lparr>Mode := Mode (nodes fs oldNode) OR ModeSymlink\<rparr>),
                        symlinks := (symlinks fs)(newNode \<mapsto> oldname)\<rparr>, None)
                | Inl _ \<Rightarrow>
                    let (dir', filename) = Split newname
                    in (case Resolve (nodes fs) (root fs) wd (Clean dir') of
                         Inl err \<Rightarrow> (fs, Some (Errno err))
                       | Inr parent \<Rightarrow>
                           let (n, newNode) =
                                 Ino_New (ino fs) (Mode (nodes fs oldNode) OR ModeSymlink);
                               (ns, err) = Link ((nodes fs)(n := newNode)) parent filename n
                           in (case err of
                                Some e \<Rightarrow>
                                  (fs\<lparr>ino := n\<rparr>, Some (PathError ''symlink'' newname e))
                              | None \<Rightarrow>
                                  (fs\<lparr>ino := n, nodes := ns,
                                      symlinks := (symlinks fs)(n \<mapsto> oldname)\<rparr>, None))))))"

section \<open>Walk\<close>

text \<open>
  Modelled from the spec: \<open>Readdirnames\<close> of the open-file handle, whose file is not
  among the sources. The spec (section 6) says that \<open>readdirnames(-1)\<close> returns all
  names of the directory, \<open>.\<close> and \<open>..\<close> excluded. \<open>Walk\<close> takes the function as
  its first parameter, so that its properties hold of whatever the handle returns, an
  error included; this definition is the instance the examples use.
\<close>

definition Readdirnames :: "(nat \<Rightarrow> Inode) \<Rightarrow> File \<Rightarrow> error + string list" where
  "Readdirnames ns f =
     Inr (map fst (filter (\<lambda>e. \<not> structural (fst e)) (Dir (ns (f_node f)))))"

text \<open>
  \<open>Walk\<close>. The stack is the Go slice: \<open>push\<close> appends, \<open>pop\<close> takes the last
  element. \<open>sort.Sort(sort.Reverse(sort.StringSlice(names)))\<close> leaves the names in
  descending order of Go's string comparison, which compares bytes: the reverse of the
  sorted list. The visitor \<open>fn\<close> is called with the path and the \<open>FileInfo\<close>; what it
  does besides returning an error is a change of a state \<open>u\<close> of its own. \<open>info.IsDir()\<close>
  is read from the inode behind the \<open>FileInfo\<close>, and \<open>f.Close()\<close> changes nothing
  that is modelled. A walk that does not end is the value \<open>None\<close>.
\<close>

partial_function (option) Walk_loop ::
  "((nat \<Rightarrow> Inode) \<Rightarrow> File \<Rightarrow> error + string list) \<Rightarrow>
   (string \<Rightarrow> FileInfo \<Rightarrow> 'u \<Rightarrow> 'u \<times> error option) \<Rightarrow>
   FileSystem \<Rightarrow> string list \<Rightarrow> 'u \<Rightarrow> (FileSystem \<times> 'u \<times> error option) option" where
  "Walk_loop rd fn fs stack u =
     (if stack = [] then Some (fs, u, None)
      else
        let path = last stack;
            stack1 = butlast stack
        in case Stat fs path of
             None \<Rightarrow> None
           | Some (Inl err) \<Rightarrow> Some (fs, u, Some err)
           | Some (Inr info) \<Rightarrow>
               (case (if IsDir (nodes fs (snd info)) then
                        (case Open fs path of
                           (fs1, Inl err) \<Rightarrow> Inl (fs1, err)
                         | (fs1, Inr f) \<Rightarrow>
                             (case rd (nodes fs1) f of
                                Inl err \<Rightarrow> Inl (fs1, err)
                              | Inr names \<Rightarrow>
                                  Inr (fs1,
                                       stack1 @
                                       map (Join path)
                                         (filter (\<lambda>p. \<not> (p = ''..'' \<or> p = ''.''))
                                            (rev (sort names))))))
                      else Inr (fs, stack1)) of
                  Inl (fs1, err) \<Rightarrow> Some (fs1, u, Some err)
                | Inr (fs1, stack2) \<Rightarrow>
                    (case fn path info u of
                       (u1, Some err) \<Rightarrow> Some (fs1, u1, Some err)
                     | (u1, None) \<Rightarrow> Walk_loop rd fn fs1 stack2 u1)))"

declare Walk_loop.simps [code]

definition Walk ::
  "((nat \<Rightarrow> Inode) \<Rightarrow> File \<Rightarrow> error + string list) \<Rightarrow>
   (string \<Rightarrow> FileInfo \<Rightarrow> 'u \<Rightarrow> 'u \<times> error option) \<Rightarrow>
   FileSystem \<Rightarrow> string \<Rightarrow> 'u \<Rightarrow> (FileSystem \<times> 'u \<times> error option) option" where
  "Walk rd fn fs name' u = Walk_loop rd fn fs ([] @ [name']) u"

text \<open>
  The words of the spec for \<open>Walk\<close> (section 4.4), as a definition of their own: a
  depth-first pre-order traversal, in which the visitor is invoked for a directory before
  the directory's children and a visitor error terminates the walk and is returned. The
  traversal is over the tree of what \<open>Walk\<close> finds below a path: a path where \<open>Stat\<close>,
  \<open>Open\<close> or \<open>Readdirnames\<close> fails (\<open>Fails\<close>), a path that is not a directory
  (\<open>Leaf\<close>), or a directory with the trees of its children (\<open>Branch\<close>).
\<close>

datatype wtree = Fails error | Leaf string FileInfo | Branch string FileInfo "wtree list"

fun visit :: "(string \<Rightarrow> FileInfo \<Rightarrow> 'u \<Rightarrow> 'u \<times> error option) \<Rightarrow> wtree \<Rightarrow> 'u \<Rightarrow> 'u \<times> error option"
  and visit_all :: "(string \<Rightarrow> FileInfo \<Rightarrow> 'u \<Rightarrow> 'u \<times> error option) \<Rightarrow> wtree list \<Rightarrow> 'u \<Rightarrow> 'u \<times> error option" where
  "visit fn (Fails e) u = (u, Some e)"
| "visit fn (Leaf p i) u = fn p i u"
| "visit fn (Branch p i ts) u =
     (case fn p i u of
        (u1, Some e) \<Rightarrow> (u1, Some e)
      | (u1, None) \<Rightarrow> visit_all fn ts u1)"
| "visit_all fn [] u = (u, None)"
| "visit_all fn (t # ts) u =
     (case visit fn t u of
        (u1, Some e) \<Rightarrow> (u1, Some e)
      | (u1, None) \<Rightarrow> visit_all fn ts u1)"

text \<open>
  \<open>tree_at rd fs path t\<close>: \<open>t\<close> is the tree below \<open>path\<close> in the filesystem
  \<open>fs\<close>. The children of a directory are its names other than \<open>.\<close> and \<open>..\<close>, in
  ascending lexicographic order, each joined to the directory's path.
\<close>

inductive tree_at ::
  "((nat \<Rightarrow> Inode) \<Rightarrow> File \<Rightarrow> error + string list) \<Rightarrow> FileSystem \<Rightarrow> string \<Rightarrow> wtree \<Rightarrow> bool"
  for rd :: "(nat \<Rightarrow> Inode) \<Rightarrow> File \<Rightarrow> error + string list" and fs :: FileSystem where
  stat_fails: "Stat fs path = Some (Inl e) \<Longrightarrow> tree_at rd fs path (Fails e)"
| leaf: "Stat fs path = Some (Inr info) \<Longrightarrow> \<not> IsDir (nodes fs (snd info)) \<Longrightarrow>
         tree_at rd fs path (Leaf path info)"
| open_fails: "Stat fs path = Some (Inr info) \<Longrightarrow> IsDir (nodes fs (snd info)) \<Longrightarrow>
         snd (Open fs path) = Inl e \<Longrightarrow> tree_at rd fs path (Fails e)"
| readdir_fails: "Stat fs path = Some (Inr info) \<Longrightarrow> IsDir (nodes fs (snd info)) \<Longrightarrow>
         snd (Open fs path) = Inr f \<Longrightarrow> rd (nodes fs) f = Inl e \<Longrightarrow>
         tree_at rd fs path (Fails e)"
| branch: "Stat fs path = Some (Inr info) \<Longrightarrow> IsDir (nodes fs (snd info)) \<Longrightarrow>
         snd (Open fs path) = Inr f \<Longrightarrow> rd (nodes fs) f = Inr names \<Longrightarrow>
         list_all2 (tree_at rd fs)
           (map (Join path) (filter (\<lambda>p. \<not> (p = ''..'' \<or> p = ''.'')) (sort names))) ts \<Longrightarrow>
         tree_at rd fs path (Branch path info ts)"

fun tsize :: "wtree \<Rightarrow> nat" where
  "tsize (Fails e) = 1"
| "tsize (Leaf p i) = 1"
| "tsize (Branch p i ts) = Suc (sum_list (map tsize ts))"

text \<open>
  What \<open>Stat\<close> and a read-only \<open>Open\<close> depend on: everything but the handles and
  payloads held in the store. Opening a directory stores the handle in the directory's
  sealed record and changes nothing else.
\<close>

definition shape :: "FileSystem \<Rightarrow> (nat \<Rightarrow> Inode) \<times> (nat \<Rightarrow> string option) \<times> nat \<times> string \<times> nat \<times> bool list" where
  "shape fs = (nodes fs, symlinks fs, root fs, cwd fs, dir fs, map (\<lambda>d. d = None) (data fs))"

text \<open>
  What every operation keeps of a filesystem: the root, and the length of the payload
  store, which never shrinks.
\<close>

definition keeps :: "FileSystem \<Rightarrow> FileSystem \<Rightarrow> bool" where
  "keeps fs fs' = (root fs' = root fs \<and> length (data fs) \<le> length (data fs'))"

section \<open>Properties of the path-prefix conversion\<close>

lemma HasPrefix_append: "HasPrefix (pre @ r) pre"
  by (simp add: HasPrefix_def)

lemma HasPrefix_split: "HasPrefix s pre \<Longrightarrow> \<exists>r. s = pre @ r"
  unfolding HasPrefix_def by (metis append_take_drop_id)

lemma Index_at_front: "HasPrefix s sub \<Longrightarrow> Index s sub = Some 0"
  by (cases s) (auto simp: HasPrefix_def)

lemma Replace1_at_front:
  "old \<noteq> new \<Longrightarrow> Replace1 (old @ r) old new = new @ r"
  by (simp add: Replace1_def Index_at_front HasPrefix_append)

lemma convertVFSPath_prefixed: "convertVFSPath (VFSPrefix @ r) = ''/'' @ r"
  unfolding convertVFSPath_def by (rule Replace1_at_front) (simp add: VFSPrefix_def)

lemma MakeVFSPath_rooted: "MakeVFSPath (''/'' @ r) = VFSPrefix @ r"
proof -
  have "Replace1 (''/'' @ r) ''/'' VFSPrefix = VFSPrefix @ r"
    by (rule Replace1_at_front) (simp add: VFSPrefix_def)
  moreover have "VFSPrefix @ r \<noteq> ''/'' @ r"
    by (simp add: VFSPrefix_def)
  ultimately show ?thesis
    by (simp add: MakeVFSPath_def Let_def)
qed

text \<open>
  Claim C10. Round trip of the path-prefix conversion: a string \<open>q\<close> that begins with
  \<open>vfs://\<close> is returned unchanged by \<open>MakeVFSPath\<close> after \<open>convertVFSPath\<close>, and a
  string \<open>p\<close> that begins with \<open>/\<close> comes back from \<open>ConvertVFSPath\<close> after
  \<open>MakeVFSPath\<close> together with \<open>true\<close>. (A string that begins with \<open>/\<close> has nothing
  before its first \<open>/\<close>, so the claim's second condition on \<open>p\<close> holds of every
  such string.)
\<close>

theorem vfs_path_round_trip:
  "(HasPrefix q VFSPrefix \<longrightarrow> MakeVFSPath (convertVFSPath q) = q) \<and>
   (HasPrefix p ''/'' \<longrightarrow> ConvertVFSPath (MakeVFSPath p) = (p, True))"
proof (intro conjI impI)
  assume "HasPrefix q VFSPrefix"
  then obtain r where q: "q = VFSPrefix @ r"
    using HasPrefix_split by blast
  show "MakeVFSPath (convertVFSPath q) = q"
    unfolding q convertVFSPath_prefixed by (rule MakeVFSPath_rooted)
next
  assume "HasPrefix p ''/''"
  then obtain r where p: "p = ''/'' @ r"
    using HasPrefix_split by blast
  have "IsVFSPath (VFSPrefix @ r)"
    by (simp add: IsVFSPath_def HasPrefix_append)
  then show "ConvertVFSPath (MakeVFSPath p) = (p, True)"
    unfolding p MakeVFSPath_rooted by (simp add: ConvertVFSPath_def convertVFSPath_prefixed)
qed

theorem vfs_path_round_trip_witness:
  "HasPrefix ''vfs://etc/passwd'' VFSPrefix \<and>
   MakeVFSPath (convertVFSPath ''vfs://etc/passwd'') = ''vfs://etc/passwd'' \<and>
   HasPrefix ''/etc/passwd'' ''/'' \<and>
   ConvertVFSPath (MakeVFSPath ''/etc/passwd'') = (''/etc/passwd'', True)"
proof -
  have a: "HasPrefix ''vfs://etc/passwd'' VFSPrefix"
    by (simp add: HasPrefix_def VFSPrefix_def)
  have b: "HasPrefix ''/etc/passwd'' ''/''"
    by (simp add: HasPrefix_def)
  from a b vfs_path_round_trip [of "''vfs://etc/passwd''" "''/etc/passwd''"]
  show ?thesis by blast
qed

section \<open>Opening files\<close>

lemma Link_Mode: "Mode (fst (Link ns p nm c) k) = Mode (ns k)"
  by (simp add: Link_def count_up_def Let_def)

lemma Link_succeeds:
  "nm \<notin> fst ` set (Dir (ns p)) \<Longrightarrow> snd (Link ns p nm c) = None"
  by (simp add: Link_def Let_def)

lemma open_node_ino: "ino (fst (open_node fs nm flag node)) = ino fs"
  by (simp add: open_node_def Let_def split: sum.splits option.splits)

lemma open_node_Mode: "Mode (nodes (fst (open_node fs nm flag node)) k) = Mode (nodes fs k)"
  by (simp add: open_node_def Let_def split: sum.splits option.splits)

lemma open_node_handle: "snd (open_node fs nm flag node) = Inr file \<Longrightarrow> f_node file = node"
  by (auto simp: open_node_def Let_def split: sum.splits option.splits if_splits)

text \<open>
  Claim C1, as amended. When \<open>OpenFile\<close> is called with the \<open>CREATE\<close> flag on a path
  other than \<open>/\<close> and \<open>.\<close> that does not resolve, the parent resolves and the file
  name is not yet an entry of the parent, the call allocates the next inode number, and
  the permission bits of that inode are \<open>umask & perm\<close>: the requested bits that the
  filesystem's \<open>Umask\<close> field also has, not those it lacks. A handle the call returns is
  bound to that inode.
\<close>

theorem OpenFile_create_mode:
  assumes nm: "name' \<noteq> ''/''" "name' \<noteq> ''.''"
    and missing: "Resolve (nodes fs) (root fs) (if IsAbs name' then root fs else dir fs) name' = Inl e"
    and parent: "Resolve (nodes fs) (root fs) (if IsAbs name' then root fs else dir fs)
                   (Clean (fst (Split name'))) = Inr parent"
    and create: "flag AND O_CREATE \<noteq> 0"
    and fresh: "snd (Split name') \<notin> fst ` set (Dir (nodes fs parent))"
  shows "ino (fst (OpenFile fs name' flag perm)) = Suc (ino fs) \<and>
         Mode (nodes (fst (OpenFile fs name' flag perm)) (Suc (ino fs))) = Umask fs AND perm \<and>
         (\<forall>file. snd (OpenFile fs name' flag perm) = Inr file \<longrightarrow> f_node file = Suc (ino fs))"
proof -
  define n where "n = Suc (ino fs)"
  define node where
    "node = \<lparr>Mode = Umask fs AND perm, Nlink = 0, Size = 0, Uid = 0, Gid = 0, Dir = []\<rparr>"
  define ns1 where "ns1 = (nodes fs)(n := node)"
  define filename where "filename = snd (Split name')"
  have "filename \<notin> fst ` set (Dir (ns1 parent))"
    using fresh by (simp add: ns1_def node_def filename_def)
  then have ok: "snd (Link ns1 parent filename n) = None"
    by (rule Link_succeeds)
  define ns where "ns = fst (Link ns1 parent filename n)"
  define fs1 where
    "fs1 = fs\<lparr>ino := n, nodes := ns, data := data fs @ [Some new_sealedFile]\<rparr>"
  have L: "Link ns1 parent filename n = (ns, None)"
    using ok by (simp add: ns_def prod_eq_iff)
  have "open_create fs name' flag perm parent filename = open_node fs1 name' flag n"
    using create L
    by (simp add: open_create_def Ino_New_def fs1_def ns1_def node_def n_def)
  then have step: "OpenFile fs name' flag perm = open_node fs1 name' flag n"
    using nm missing parent
    by (simp add: OpenFile_def Let_def split_beta filename_def)
  have "Mode (ns n) = Umask fs AND perm"
    by (simp add: ns_def Link_Mode ns1_def node_def)
  then show ?thesis
    unfolding step using open_node_handle [of fs1 name' flag n]
    by (simp add: open_node_ino open_node_Mode fs1_def n_def)
qed

theorem OpenFile_create_mode_witness:
  "''/f'' \<noteq> ''/'' \<and> ''/f'' \<noteq> ''.'' \<and>
   Resolve (nodes NewFS) (root NewFS) (if IsAbs ''/f'' then root NewFS else dir NewFS) ''/f''
     = Inl ENOENT \<and>
   Resolve (nodes NewFS) (root NewFS) (if IsAbs ''/f'' then root NewFS else dir NewFS)
     (Clean (fst (Split ''/f''))) = Inr 1 \<and>
   (O_CREATE OR O_RDWR) AND O_CREATE \<noteq> 0 \<and>
   snd (Split ''/f'') \<notin> fst ` set (Dir (nodes NewFS 1)) \<and>
   ino (fst (OpenFile NewFS ''/f'' (O_CREATE OR O_RDWR) 420)) = Suc (ino NewFS) \<and>
   Mode (nodes (fst (OpenFile NewFS ''/f'' (O_CREATE OR O_RDWR) 420)) (Suc (ino NewFS)))
     = Umask NewFS AND 420"
proof -
  have a: "Resolve (nodes NewFS) (root NewFS) (if IsAbs ''/f'' then root NewFS else dir NewFS)
             ''/f'' = Inl ENOENT"
    by code_simp
  have b: "Resolve (nodes NewFS) (root NewFS) (if IsAbs ''/f'' then root NewFS else dir NewFS)
             (Clean (fst (Split ''/f''))) = Inr 1"
    by code_simp
  have c: "(O_CREATE OR O_RDWR) AND O_CREATE \<noteq> 0"
    by code_simp
  have d: "snd (Split ''/f'') \<notin> fst ` set (Dir (nodes NewFS 1))"
    by code_simp
  from OpenFile_create_mode [OF _ _ a b c d, of 420] a b c d
  show ?thesis by simp
qed

text \<open>
  The claim as the spec states it asks for \<open>perm & ~umask\<close>. On a new filesystem, whose
  \<open>Umask\<close> is octal 755, creating \<open>/f\<close> with the permissions octal 644 (420) gives
  inode 2 the mode 420, where \<open>perm & ~umask\<close> is 0.
\<close>

theorem OpenFile_create_mode_counterexample:
  "snd (OpenFile NewFS ''/f'' (O_CREATE OR O_RDWR) 420)
     = Inr \<lparr>f_name = ''/f'', f_flags = 66, f_node = 2, f_data = Some 2, f_offset = 0\<rparr> \<and>
   Mode (nodes (fst (OpenFile NewFS ''/f'' (O_CREATE OR O_RDWR) 420)) 2) = 420 \<and>
   420 AND NOT (Umask NewFS) = 0"
  by code_simp

text \<open>
  The payload store of a new filesystem has a slot for the root, and \<open>OpenFile\<close>,
  \<open>Mkdir\<close> and \<open>Symlink\<close>, the operations that write to the store or allocate
  inodes, neither shorten the store nor move the root.
\<close>

lemma NewFS_root_slot: "root NewFS < length (data NewFS)"
  by (simp add: NewFS_def Ino_NewDir_def)

lemma keeps_slot: "keeps fs fs' \<Longrightarrow> root fs < length (data fs) \<Longrightarrow> root fs' < length (data fs')"
  by (simp add: keeps_def)

lemma keeps_trans: "keeps a b \<Longrightarrow> keeps b c \<Longrightarrow> keeps a c"
  by (auto simp: keeps_def)

lemma open_node_keeps: "keeps fs (fst (open_node fs nm flag node))"
  by (simp add: open_node_def keeps_def Let_def split: sum.splits option.splits)

lemma open_node_keeps_after: "keeps fs fs' \<Longrightarrow> keeps fs (fst (open_node fs' nm flag node))"
  using keeps_trans open_node_keeps by blast

lemma open_existing_keeps: "keeps fs (fst (open_existing fs nm flag node))"
proof -
  have "keeps fs (fst (open_node (fs\<lparr>data := (data fs)[i := x]\<rparr>) nm flag node))" for i x
    by (rule open_node_keeps_after) (simp add: keeps_def)
  then show ?thesis
    by (simp add: open_existing_def Let_def open_node_keeps split: sum.splits option.splits)
      (simp add: keeps_def)
qed

lemma open_create_keeps: "keeps fs (fst (open_create fs nm flag perm parent filename))"
proof -
  have "keeps fs (fst (open_node (fs\<lparr>ino := n, nodes := ns, data := data fs @ [y]\<rparr>) nm flag k))"
    for n ns y k
    by (rule open_node_keeps_after) (simp add: keeps_def)
  then show ?thesis
    by (simp add: open_create_def Let_def split_beta split: option.splits)
      (simp add: keeps_def)
qed

lemma OpenFile_keeps: "keeps fs (fst (OpenFile fs nm flag perm))"
  by (simp add: OpenFile_def Let_def split_beta open_existing_keeps open_create_keeps
      split: sum.splits option.splits)
    (simp add: keeps_def)

lemma Mkdir_keeps: "keeps fs (fst (Mkdir fs nm perm))"
  by (simp add: Mkdir_def Let_def split_beta keeps_def split: sum.splits)

lemma Symlink_keeps: "keeps fs (fst (Symlink fs old new))"
  by (simp add: Symlink_def Let_def split_beta keeps_def split: sum.splits option.splits)












section \<open>Truncate\<close>

text \<open>
  Claim C7. For every path and every size below zero, \<open>Truncate\<close> fails and leaves the
  filesystem unchanged, but the error it returns wraps \<open>os.ErrClosed\<close> (file already
  closed): it is not of the kind \<open>INVALID\<close> that the claim asks for.
\<close>

theorem Truncate_negative_size:
  "sint size' < 0 \<Longrightarrow>
     Truncate resize fs name' size' = (fs, Some (PathError ''truncate'' name' ErrClosed)) \<and>
     \<not> IsInvalid (PathError ''truncate'' name' ErrClosed)"
  by (simp add: Truncate_def IsInvalid_def)

theorem Truncate_negative_size_witness:
  "sint (- 1 :: 64 word) < 0 \<and>
   Truncate (\<lambda>fs _ _. (fs, None)) NewFS ''/f'' (- 1)
     = (NewFS, Some (PathError ''truncate'' ''/f'' ErrClosed)) \<and>
   \<not> IsInvalid (PathError ''truncate'' ''/f'' ErrClosed)"
  using Truncate_negative_size [of "- 1" "\<lambda>fs _ _. (fs, None)" NewFS "''/f''"] by simp

section \<open>Stat\<close>

lemma fileStat_self_link:
  assumes "fileStat fs c n = Some y"
  shows "\<not> (fs = fst (Symlink (fst (Symlink NewFS ''/'' ''/b'')) ''/b'' ''/b'') \<and> n = ''/b'')"
  using assms
proof (induction fs c n y rule: fileStat.raw_induct [rotated 1, consumes 1])
  case (1 fileStat' fs cwd' name' y)
  have l1: "Abs cwd' ''/b'' = ''/b''"
    by code_simp
  have l2: "TrimLeft ''/b'' CHR ''/'' = ''b''"
    by code_simp
  have l3: "Resolve (nodes (fst (Symlink (fst (Symlink NewFS ''/'' ''/b'')) ''/b'' ''/b'')))
              (root (fst (Symlink (fst (Symlink NewFS ''/'' ''/b'')) ''/b'' ''/b'')))
              (root (fst (Symlink (fst (Symlink NewFS ''/'' ''/b'')) ''/b'' ''/b''))) ''b'' = Inr 2"
    by code_simp
  have l4: "Mode (nodes (fst (Symlink (fst (Symlink NewFS ''/'' ''/b'')) ''/b'' ''/b'')) 2)
              AND ModeSymlink \<noteq> 0"
    by code_simp
  have l5: "symlink_at (fst (Symlink (fst (Symlink NewFS ''/'' ''/b'')) ''/b'' ''/b'')) 2 = ''/b''"
    by code_simp
  show ?case
  proof
    assume a: "fs = fst (Symlink (fst (Symlink NewFS ''/'' ''/b'')) ''/b'' ''/b'') \<and> name' = ''/b''"
    with 1(2) have "fileStat' fs (PathDir ''b'') ''/b'' = Some y"
      by (simp add: l1 l2 l3 l4 l5 Let_def)
    from 1(1) [OF this] a show False by blast
  qed
qed

text \<open>
  Claim C2. \<open>Stat\<close> does not terminate on every filesystem state. Two successful calls
  of \<open>Symlink\<close> on a new filesystem, \<open>Symlink("/", "/b")\<close> and then
  \<open>Symlink("/b", "/b")\<close>, leave \<open>/b\<close> a symlink to itself; on that state
  \<open>Stat("/b")\<close> follows the link without a bound on the number of hops and never
  returns, neither an inode nor a \<open>LOOP\<close> error.
\<close>

theorem Stat_symlink_cycle:
  "snd (Symlink NewFS ''/'' ''/b'') = None \<and>
   snd (Symlink (fst (Symlink NewFS ''/'' ''/b'')) ''/b'' ''/b'') = None \<and>
   Stat (fst (Symlink (fst (Symlink NewFS ''/'' ''/b'')) ''/b'' ''/b'')) ''/b'' = None"
proof -
  have "fileStat (fst (Symlink (fst (Symlink NewFS ''/'' ''/b'')) ''/b'' ''/b'')) c ''/b'' = None"
    for c
    using fileStat_self_link
    by (cases "fileStat (fst (Symlink (fst (Symlink NewFS ''/'' ''/b'')) ''/b'' ''/b'')) c ''/b''")
      auto
  then have "Stat (fst (Symlink (fst (Symlink NewFS ''/'' ''/b'')) ''/b'' ''/b'')) ''/b'' = None"
    by (simp add: Stat_def)
  moreover have "snd (Symlink NewFS ''/'' ''/b'') = None"
    by code_simp
  moreover have "snd (Symlink (fst (Symlink NewFS ''/'' ''/b'')) ''/b'' ''/b'') = None"
    by code_simp
  ultimately show ?thesis by simp
qed

section \<open>MkdirAll\<close>

lemma MkdirAll_loop_state:
  "fst (MkdirAll_loop fs perm path ps)
     = foldl (\<lambda>s p. fst (Mkdir s p perm)) fs (MkdirAll_paths path ps)"
  by (induction ps arbitrary: fs path) (simp_all add: Let_def split_beta)

lemma MkdirAll_loop_length: "length (snd (MkdirAll_loop fs perm path ps)) = length ps"
  by (induction ps arbitrary: fs path) (simp_all add: Let_def split_beta)

text \<open>
  Claim C3, as amended. For every path, \<open>MkdirAll\<close> runs \<open>Mkdir\<close> on each successive
  prefix of the cleaned absolute path, root first, each call on the state the call before
  it left, whatever that call returned; it drops every error, \<open>EXISTS\<close> or not, and
  always returns \<open>nil\<close>.
\<close>

theorem MkdirAll_discards_errors:
  "snd (MkdirAll fs name' perm) = None \<and>
   fst (MkdirAll fs name' perm)
     = foldl (\<lambda>s p. fst (Mkdir s p perm)) fs
         (MkdirAll_paths [] (split_on CHR ''/'' (Abs (cwd fs) name')))"
  by (simp add: MkdirAll_def MkdirAll_loop_state)

text \<open>
  On a new filesystem \<open>MkdirAll("/a/b")\<close> calls \<open>Mkdir\<close> on \<open>/\<close>, \<open>/a\<close> and
  \<open>/a/b\<close>, and afterwards \<open>/a/b\<close> resolves to a directory.
\<close>

theorem MkdirAll_discards_errors_witness:
  "snd (MkdirAll NewFS ''/a/b'' 493) = None \<and>
   fst (MkdirAll NewFS ''/a/b'' 493)
     = foldl (\<lambda>s p. fst (Mkdir s p 493)) NewFS [''/'', ''/a'', ''/a/b''] \<and>
   Resolve (nodes (fst (MkdirAll NewFS ''/a/b'' 493))) 1 1 ''/a/b'' = Inr 3 \<and>
   IsDir (nodes (fst (MkdirAll NewFS ''/a/b'' 493)) 3)"
proof -
  have p: "MkdirAll_paths [] (split_on CHR ''/'' (Abs (cwd NewFS) ''/a/b''))
             = [''/'', ''/a'', ''/a/b'']"
    by code_simp
  have r: "Resolve (nodes (fst (MkdirAll NewFS ''/a/b'' 493))) 1 1 ''/a/b'' = Inr 3"
    by code_simp
  have d: "IsDir (nodes (fst (MkdirAll NewFS ''/a/b'' 493)) 3)"
    by code_simp
  from MkdirAll_discards_errors [of NewFS "''/a/b''" 493] r d
  show ?thesis unfolding p by blast
qed

text \<open>
  The claim as the spec states it has \<open>MkdirAll\<close> return the first error that is not
  \<open>EXISTS\<close>. With \<open>/f\<close> a regular file, \<open>MkdirAll("/f/x/y")\<close> meets the error
  \<open>NOT_A_DIRECTORY\<close> at its last level and still returns \<open>nil\<close>.
\<close>

theorem MkdirAll_discards_errors_counterexample:
  "snd (MkdirAll (fst (OpenFile NewFS ''/f'' (O_CREATE OR O_RDWR) 420)) ''/f/x/y'' 493) = None \<and>
   snd (MkdirAll_loop (fst (OpenFile NewFS ''/f'' (O_CREATE OR O_RDWR) 420)) 493 []
          (split_on CHR ''/''
             (Abs (cwd (fst (OpenFile NewFS ''/f'' (O_CREATE OR O_RDWR) 420))) ''/f/x/y'')))
     = [Some (PathError ''mkdir'' ''/'' ErrExist), Some (PathError ''mkdir'' ''/f'' ErrExist),
        None, Some (PathError ''mkdir'' ''/f/x'' ENOTDIR)] \<and>
   \<not> IsExist (PathError ''mkdir'' ''/f/x'' ENOTDIR)"
  by code_simp

section \<open>RemoveAll\<close>












section \<open>Symlink and Readlink\<close>

lemma map_of_insert_entry:
  "k \<notin> fst ` set xs \<Longrightarrow> map_of (insert_entry (k, v) xs) k = Some v"
  by (induction xs) auto

lemma map_of_insert_filtered:
  "map_of (insert_entry (k, v) (filter (\<lambda>e. fst e \<noteq> k) xs)) k = Some v"
  by (rule map_of_insert_entry) auto

lemma Link_binds:
  "snd (Link ns p nm c) = None \<Longrightarrow> map_of (Dir (fst (Link ns p nm c) p)) nm = Some c"
  by (auto simp: Link_def Let_def count_up_def map_of_insert_entry map_of_insert_filtered
      split: if_splits)

text \<open>
  Claim C5, as amended. \<open>Symlink(oldname, newname)\<close> resolves both names from the same
  starting directory \<open>wd\<close>. When the link path does not resolve, the target does, the
  parent of the link path resolves and the file name is not yet an entry of the parent,
  the call succeeds: it allocates the next inode number, gives that inode the target's
  mode with the symlink bit, binds the file name to it in the parent, and records the
  target string as it was passed under that number in the symlink table. When the
  target does not resolve, the call is refused with \<open>NO_SUCH_ENTRY\<close> on the target and
  the filesystem is unchanged.
\<close>

theorem Symlink_records_target:
  assumes wd: "wd = (if IsAbs newname then root fs else dir fs)"
  shows
   "(Resolve (nodes fs) (root fs) wd newname = Inl e \<and>
     Resolve (nodes fs) (root fs) wd oldname = Inr oldNode \<and>
     Resolve (nodes fs) (root fs) wd (Clean (fst (Split newname))) = Inr parent \<and>
     snd (Split newname) \<notin> fst ` set (Dir (nodes fs parent)) \<longrightarrow>
       snd (Symlink fs oldname newname) = None \<and>
       ino (fst (Symlink fs oldname newname)) = Suc (ino fs) \<and>
       symlinks (fst (Symlink fs oldname newname)) (Suc (ino fs)) = Some oldname \<and>
       Mode (nodes (fst (Symlink fs oldname newname)) (Suc (ino fs)))
         = Mode (nodes fs oldNode) OR ModeSymlink \<and>
       map_of (Dir (nodes (fst (Symlink fs oldname newname)) parent)) (snd (Split newname))
         = Some (Suc (ino fs))) \<and>
    (Resolve (nodes fs) (root fs) wd newname = Inl e \<and>
     Resolve (nodes fs) (root fs) wd oldname = Inl e' \<longrightarrow>
       Symlink fs oldname newname = (fs, Some (PathError ''symlink'' oldname ENOENT)))"
proof (intro conjI impI)
  assume a: "Resolve (nodes fs) (root fs) wd newname = Inl e \<and>
     Resolve (nodes fs) (root fs) wd oldname = Inr oldNode \<and>
     Resolve (nodes fs) (root fs) wd (Clean (fst (Split newname))) = Inr parent \<and>
     snd (Split newname) \<notin> fst ` set (Dir (nodes fs parent))"
  define n where "n = Suc (ino fs)"
  define node where
    "node = \<lparr>Mode = Mode (nodes fs oldNode) OR ModeSymlink, Nlink = 0, Size = 0,
             Uid = 0, Gid = 0, Dir = []\<rparr>"
  define ns1 where "ns1 = (nodes fs)(n := node)"
  define filename where "filename = snd (Split newname)"
  have "filename \<notin> fst ` set (Dir (ns1 parent))"
    using a by (simp add: ns1_def node_def filename_def)
  then have ok: "snd (Link ns1 parent filename n) = None"
    by (rule Link_succeeds)
  define ns where "ns = fst (Link ns1 parent filename n)"
  have L: "Link ns1 parent filename n = (ns, None)"
    using ok by (simp add: ns_def prod_eq_iff)
  have step: "Symlink fs oldname newname
                = (fs\<lparr>ino := n, nodes := ns, symlinks := (symlinks fs)(n \<mapsto> oldname)\<rparr>, None)"
    using a L wd
    by (simp add: Symlink_def Let_def split_beta Ino_New_def ns1_def node_def n_def filename_def)
  have m: "Mode (ns n) = Mode (nodes fs oldNode) OR ModeSymlink"
    by (simp add: ns_def Link_Mode ns1_def node_def)
  have b: "map_of (Dir (ns parent)) filename = Some n"
    unfolding ns_def using ok by (rule Link_binds)
  show "snd (Symlink fs oldname newname) = None"
    by (simp add: step)
  show "ino (fst (Symlink fs oldname newname)) = Suc (ino fs)"
    by (simp add: step n_def)
  show "symlinks (fst (Symlink fs oldname newname)) (Suc (ino fs)) = Some oldname"
    by (simp add: step n_def)
  show "Mode (nodes (fst (Symlink fs oldname newname)) (Suc (ino fs)))
         = Mode (nodes fs oldNode) OR ModeSymlink"
    using m by (simp add: step n_def)
  show "map_of (Dir (nodes (fst (Symlink fs oldname newname)) parent)) (snd (Split newname))
         = Some (Suc (ino fs))"
    using b by (simp add: step n_def filename_def)
next
  assume "Resolve (nodes fs) (root fs) wd newname = Inl e \<and>
     Resolve (nodes fs) (root fs) wd oldname = Inl e'"
  then show "Symlink fs oldname newname = (fs, Some (PathError ''symlink'' oldname ENOENT))"
    using wd by (simp add: Symlink_def Let_def)
qed

text \<open>
  On a new filesystem the target \<open>//./\<close>, which resolves to the root, is recorded as it
  is written, and the target \<open>/nonexistent\<close> is refused.
\<close>

theorem Symlink_records_target_witness:
  "Resolve (nodes NewFS) (root NewFS) (root NewFS) ''/lnk'' = Inl ENOENT \<and>
   Resolve (nodes NewFS) (root NewFS) (root NewFS) ''//./'' = Inr 1 \<and>
   Resolve (nodes NewFS) (root NewFS) (root NewFS) (Clean (fst (Split ''/lnk''))) = Inr 1 \<and>
   snd (Split ''/lnk'') \<notin> fst ` set (Dir (nodes NewFS 1)) \<and>
   snd (Symlink NewFS ''//./'' ''/lnk'') = None \<and>
   symlinks (fst (Symlink NewFS ''//./'' ''/lnk'')) (Suc (ino NewFS)) = Some ''//./'' \<and>
   Resolve (nodes NewFS) (root NewFS) (root NewFS) ''/nonexistent'' = Inl ENOENT \<and>
   Symlink NewFS ''/nonexistent'' ''/lnk''
     = (NewFS, Some (PathError ''symlink'' ''/nonexistent'' ENOENT))"
proof -
  have wd: "root NewFS = (if IsAbs ''/lnk'' then root NewFS else dir NewFS)"
    by code_simp
  have a: "Resolve (nodes NewFS) (root NewFS) (root NewFS) ''/lnk'' = Inl ENOENT"
    by code_simp
  have b: "Resolve (nodes NewFS) (root NewFS) (root NewFS) ''//./'' = Inr 1"
    by code_simp
  have c: "Resolve (nodes NewFS) (root NewFS) (root NewFS) (Clean (fst (Split ''/lnk''))) = Inr 1"
    by code_simp
  have d: "snd (Split ''/lnk'') \<notin> fst ` set (Dir (nodes NewFS 1))"
    by code_simp
  have e: "Resolve (nodes NewFS) (root NewFS) (root NewFS) ''/nonexistent'' = Inl ENOENT"
    by code_simp
  from Symlink_records_target [OF wd, of ENOENT "''//./''" 1 1 ENOENT] a b c d
  have one: "snd (Symlink NewFS ''//./'' ''/lnk'') = None \<and>
             symlinks (fst (Symlink NewFS ''//./'' ''/lnk'')) (Suc (ino NewFS)) = Some ''//./''"
    by blast
  from Symlink_records_target [OF wd, of ENOENT "''/nonexistent''" 1 1 ENOENT] a e
  have two: "Symlink NewFS ''/nonexistent'' ''/lnk''
               = (NewFS, Some (PathError ''symlink'' ''/nonexistent'' ENOENT))"
    by blast
  from a b c d e one two show ?thesis by blast
qed

text \<open>
  The claim as the spec states it has \<open>symlink\<close> succeed whether or not the target
  resolves. On a new filesystem, where the parent \<open>/\<close> of \<open>/lnk\<close> exists and has no
  entry \<open>lnk\<close>, the target \<open>/nonexistent\<close> is refused and nothing is recorded.
\<close>

theorem Symlink_records_target_counterexample:
  "Resolve (nodes NewFS) (root NewFS) (root NewFS) (Clean (fst (Split ''/lnk''))) = Inr 1 \<and>
   snd (Split ''/lnk'') \<notin> fst ` set (Dir (nodes NewFS 1)) \<and>
   snd (Symlink NewFS ''/nonexistent'' ''/lnk'')
     = Some (PathError ''symlink'' ''/nonexistent'' ENOENT) \<and>
   symlinks (fst (Symlink NewFS ''/nonexistent'' ''/lnk'')) 2 = None"
  by code_simp

text \<open>
  A mutex in its zero state that is read-locked and then write-unlocked: the unlock is
  the fatal error.
\<close>

lemma Readlink_mutex: "RWMutex_Unlock (RWMutex_RLock 0) = Inl Fatal"
  by (simp add: RWMutex_Unlock_def RWMutex_RLock_def rwmutexMaxReaders_def)

text \<open>
  Claim C6. \<open>Readlink\<close> is claimed to return the stored target when the path resolves
  to a symlink, and to fail when the path does not resolve or resolves to an inode that
  is not a symlink. In the code a path that does not resolve fails with the resolver's
  error, as claimed. On every path that resolves, and on \<open>/\<close>, the call takes the read
  lock and the deferred \<open>Unlock\<close> then finds the mutex not write-locked: the process
  stops with the fatal error \<open>sync: Unlock of unlocked RWMutex\<close>, and neither a target
  nor an error is returned.
\<close>

theorem Readlink_unlock_fatal:
  "(name' \<noteq> ''/'' \<and>
    Resolve (nodes fs) (root fs) (root fs) (TrimLeft name' CHR ''/'') = Inl e \<longrightarrow>
      Readlink fs name' = Inl (Errno e)) \<and>
   (name' \<noteq> ''/'' \<and>
    Resolve (nodes fs) (root fs) (root fs) (TrimLeft name' CHR ''/'') = Inr node \<longrightarrow>
      Readlink fs name' = Inl Fatal) \<and>
   Readlink fs ''/'' = Inl Fatal"
  by (simp add: Readlink_def Readlink_mutex)

text \<open>
  After \<open>Symlink("/", "/l")\<close> on a new filesystem the path \<open>/l\<close> resolves to inode
  2, whose stored target is \<open>/\<close>; \<open>Readlink("/l")\<close> ends in the fatal error, and
  \<open>Readlink("/missing")\<close> returns \<open>ENOENT\<close>.
\<close>

theorem Readlink_unlock_fatal_witness:
  "snd (Symlink NewFS ''/'' ''/l'') = None \<and>
   Resolve (nodes (fst (Symlink NewFS ''/'' ''/l''))) (root (fst (Symlink NewFS ''/'' ''/l'')))
     (root (fst (Symlink NewFS ''/'' ''/l''))) (TrimLeft ''/l'' CHR ''/'') = Inr 2 \<and>
   symlinks (fst (Symlink NewFS ''/'' ''/l'')) 2 = Some ''/'' \<and>
   Readlink (fst (Symlink NewFS ''/'' ''/l'')) ''/l'' = Inl Fatal \<and>
   Readlink (fst (Symlink NewFS ''/'' ''/l'')) ''/missing'' = Inl (Errno ENOENT)"
proof -
  define fs where "fs = fst (Symlink NewFS ''/'' ''/l'')"
  have ok: "snd (Symlink NewFS ''/'' ''/l'') = None" by code_simp
  have n1: "''/l'' \<noteq> ''/''" and n2: "''/missing'' \<noteq> ''/''" by simp_all
  have a: "Resolve (nodes fs) (root fs) (root fs) (TrimLeft ''/l'' CHR ''/'') = Inr 2"
    unfolding fs_def by code_simp
  have b: "symlinks fs 2 = Some ''/''" unfolding fs_def by code_simp
  have c: "Resolve (nodes fs) (root fs) (root fs) (TrimLeft ''/missing'' CHR ''/'') = Inl ENOENT"
    unfolding fs_def by code_simp
  have one: "Readlink fs ''/l'' = Inl Fatal"
    using Readlink_unlock_fatal [where fs = fs and name' = "''/l''" and node = 2 and e = ENOENT] a n1
    by simp
  have two: "Readlink fs ''/missing'' = Inl (Errno ENOENT)"
    using Readlink_unlock_fatal [where fs = fs and name' = "''/missing''" and node = 2 and e = ENOENT] c n2
    by simp
  from ok a b one two show ?thesis unfolding fs_def by simp
qed

section \<open>Walk visits in pre-order\<close>

lemma fileStat_frame_Some:
  assumes "fileStat fs c n = Some y"
  shows "\<forall>fs'::FileSystem. nodes fs' = nodes fs \<and> root fs' = root fs \<and> symlinks fs' = symlinks fs
           \<longrightarrow> fileStat fs' c n = Some y"
  using assms
proof (induction fs c n y rule: fileStat.raw_induct [rotated 1, consumes 1])
  case (1 fileStat' fs cwd' name' y)
  show ?case
  proof (intro allI impI)
    fix fs' :: FileSystem
    assume eq: "nodes fs' = nodes fs \<and> root fs' = root fs \<and> symlinks fs' = symlinks fs"
    then have sl: "symlink_at fs' = symlink_at fs"
      by (simp add: symlink_at_def fun_eq_iff)
    define name2 where
      "name2 = (if Abs cwd' name' \<noteq> ''/'' then TrimLeft (Abs cwd' name') CHR ''/''
                else Abs cwd' name')"
    have body: "(case Resolve (nodes fs) (root fs) (root fs) name2 of
                   Inl err \<Rightarrow> Some (Inl (PathError ''stat'' name2 err))
                 | Inr node \<Rightarrow>
                     if Mode (nodes fs node) AND ModeSymlink = 0 then Some (Inr node)
                     else fileStat' fs (PathDir name2) (symlink_at fs node)) = Some y"
      using 1(2) unfolding Let_def name2_def .
    have unfold: "fileStat fs' cwd' name' =
                 (case Resolve (nodes fs) (root fs) (root fs) name2 of
                   Inl err \<Rightarrow> Some (Inl (PathError ''stat'' name2 err))
                 | Inr node \<Rightarrow>
                     if Mode (nodes fs node) AND ModeSymlink = 0 then Some (Inr node)
                     else fileStat fs' (PathDir name2) (symlink_at fs node))"
      by (subst fileStat.simps) (simp only: Let_def name2_def eq sl)
    show "fileStat fs' cwd' name' = Some y"
    proof (cases "Resolve (nodes fs) (root fs) (root fs) name2")
      case (Inl err)
      with body unfold show ?thesis by simp
    next
      case (Inr node)
      show ?thesis
      proof (cases "Mode (nodes fs node) AND ModeSymlink = 0")
        case True
        with Inr body unfold show ?thesis by simp
      next
        case False
        with Inr body have "fileStat' fs (PathDir name2) (symlink_at fs node) = Some y"
          by simp
        from 1(1) [OF this] eq
        have "fileStat fs' (PathDir name2) (symlink_at fs node) = Some y"
          by blast
        with Inr False unfold show ?thesis by simp
      qed
    qed
  qed
qed

lemma fileStat_frame:
  assumes "nodes fs' = nodes fs" "root fs' = root fs" "symlinks fs' = symlinks fs"
  shows "fileStat fs' c n = fileStat fs c n"
proof (cases "fileStat fs c n")
  case None
  show ?thesis
  proof (cases "fileStat fs' c n")
    case None
    with \<open>fileStat fs c n = None\<close> show ?thesis by simp
  next
    case (Some y)
    from fileStat_frame_Some [OF this, rule_format, of fs] assms
    have "fileStat fs c n = Some y" by presburger
    with None show ?thesis by simp
  qed
next
  case (Some y)
  from fileStat_frame_Some [OF this, rule_format, of fs'] assms
  have "fileStat fs' c n = Some y" by presburger
  with Some show ?thesis by simp
qed

lemma Stat_shape:
  assumes "shape fs' = shape fs"
  shows "Stat fs' p = Stat fs p"
proof -
  from assms have e: "nodes fs' = nodes fs" "root fs' = root fs" "symlinks fs' = symlinks fs"
    and c: "cwd fs' = cwd fs"
    by (simp_all add: shape_def)
  have "fileStat fs' (cwd fs) p = fileStat fs (cwd fs) p"
    using e by (rule fileStat_frame)
  then show ?thesis
    unfolding Stat_def c e(2) by simp
qed


lemma open_existing_rdonly: "open_existing fs p 0 node = open_node fs p 0 node"
  by (simp add: open_existing_def O_ACCESS_def O_CREATE_def O_TRUNC_def O_RDONLY_def O_EXCL_def)

lemma open_create_rdonly:
  "open_create fs p 0 perm parent filename = (fs, Inl (PathError ''open'' p ENOENT))"
  by (simp add: open_create_def O_CREATE_def)

lemma open_node_rdonly:
  "open_node fs p 0 node =
     (case data_at (data fs) node of
        Inl e \<Rightarrow> (fs, Inl e)
      | Inr d \<Rightarrow>
          if Mode (nodes fs node) AND OS_ALL_R = 0
          then (fs, Inl (PathError ''open'' p ErrPermission))
          else (case d of
                  None \<Rightarrow> (fs, Inr \<lparr>f_name = p, f_flags = 0, f_node = node,
                                     f_data = None, f_offset = 0\<rparr>)
                | Some sf \<Rightarrow>
                    (fs\<lparr>data := (data fs)
                           [node := Some (sf\<lparr>sf_f := Some \<lparr>f_name = p, f_flags = 0,
                                f_node = node, f_data = Some node, f_offset = 0\<rparr>\<rparr>)]\<rparr>,
                     Inr \<lparr>f_name = p, f_flags = 0, f_node = node,
                           f_data = Some node, f_offset = 0\<rparr>)))"
  by (simp add: open_node_def Let_def O_ACCESS_def O_CREATE_def O_TRUNC_def O_RDONLY_def
      O_APPEND_def O_WRONLY_def O_RDWR_def split: sum.splits option.splits)

lemma shape_store_handle:
  assumes "data_at (data fs) i = Inr (Some sf)"
  shows "shape (fs\<lparr>data := (data fs)[i := Some x]\<rparr>) = shape fs"
proof -
  from assms have i: "i < length (data fs)" and s: "data fs ! i = Some sf"
    by (auto simp: data_at_def split: if_splits)
  have "map (\<lambda>d. d = None) ((data fs)[i := Some x]) = (map (\<lambda>d. d = None) (data fs))[i := False]"
    by (simp add: map_update)
  also have "\<dots> = map (\<lambda>d. d = None) (data fs)"
    using i s by (simp add: list_update_same_conv)
  finally show ?thesis
    by (simp add: shape_def)
qed

lemma open_node_keeps_shape: "shape (fst (open_node fs p 0 node)) = shape fs"
  by (simp add: open_node_rdonly shape_store_handle split: sum.splits option.splits)

lemma data_at_shape:
  assumes "map (\<lambda>d. d = None) ds' = map (\<lambda>d. d = None) ds"
  shows "(data_at ds' i = Inl e) = (data_at ds i = Inl e)"
    and "(data_at ds' i = Inr None) = (data_at ds i = Inr None)"
proof -
  from assms have len: "length ds' = length ds"
    using map_eq_imp_length_eq by blast
  show "(data_at ds' i = Inl e) = (data_at ds i = Inl e)"
    by (simp add: data_at_def len)
  have "i < length ds \<Longrightarrow> (ds' ! i = None) = (ds ! i = None)"
  proof -
    assume i: "i < length ds"
    have "(ds' ! i = None) = (map (\<lambda>d. d = None) ds' ! i)"
      using i len by simp
    also have "\<dots> = (map (\<lambda>d. d = None) ds ! i)"
      by (simp only: assms)
    also have "\<dots> = (ds ! i = None)"
      using i by simp
    finally show ?thesis .
  qed
  then show "(data_at ds' i = Inr None) = (data_at ds i = Inr None)"
    by (simp add: data_at_def len)
qed

lemma open_node_result_shape:
  assumes n: "nodes fs' = nodes fs"
    and d: "map (\<lambda>d. d = None) (data fs') = map (\<lambda>d. d = None) (data fs)"
  shows "snd (open_node fs' p 0 node) = snd (open_node fs p 0 node)"
proof (cases "data_at (data fs) node")
  case (Inl e)
  then have "data_at (data fs') node = Inl e"
    using data_at_shape(1) [OF d] by simp
  with Inl show ?thesis by (simp add: open_node_rdonly)
next
  case (Inr x)
  have k: "\<exists>y. data_at (data fs') node = Inr y \<and> (y = None) = (x = None)"
  proof (cases "data_at (data fs') node")
    case (Inl e)
    then have "data_at (data fs) node = Inl e"
      using data_at_shape(1) [OF d] by simp
    with Inr show ?thesis by simp
  next
    case r: (Inr y)
    with Inr data_at_shape(2) [OF d, of node] show ?thesis by auto
  qed
  then obtain y where y: "data_at (data fs') node = Inr y" "(y = None) = (x = None)"
    by blast
  show ?thesis
    using Inr y n by (cases x; cases y) (simp_all add: open_node_rdonly)
qed


lemma Open_keeps_shape: "shape (fst (Open fs p)) = shape fs"
proof -
  consider (rt) "p = ''/''" | (dot) "p \<noteq> ''/''" "p = ''.''" | (other) "p \<noteq> ''/''" "p \<noteq> ''.''"
    by blast
  then show ?thesis
  proof cases
    case rt
    then show ?thesis
      by (simp add: Open_def OpenFile_def split: sum.splits)
  next
    case dot
    then show ?thesis
      by (simp add: Open_def OpenFile_def O_RDONLY_def O_APPEND_def Let_def shape_store_handle
          split: sum.splits option.splits)
  next
    case other
    then show ?thesis
      by (simp add: Open_def OpenFile_def O_RDONLY_def Let_def split_beta
          open_existing_rdonly open_create_rdonly open_node_keeps_shape split: sum.splits)
  qed
qed

lemma Open_result_shape:
  assumes "shape fs' = shape fs"
  shows "snd (Open fs' p) = snd (Open fs p)"
proof -
  from assms have n: "nodes fs' = nodes fs" and r: "root fs' = root fs" and w: "dir fs' = dir fs"
    and d: "map (\<lambda>d. d = None) (data fs') = map (\<lambda>d. d = None) (data fs)"
    by (simp_all add: shape_def)
  have at: "(data_at (data fs') i = Inl e) = (data_at (data fs) i = Inl e)"
           "(data_at (data fs') i = Inr None) = (data_at (data fs) i = Inr None)" for i e
    using data_at_shape [OF d] by blast+
  have same: "(case data_at (data fs') i of Inl e \<Rightarrow> Inl e
               | Inr None \<Rightarrow> Inr (g None) | Inr (Some sf) \<Rightarrow> Inr (g (Some i)))
            = (case data_at (data fs) i of Inl e \<Rightarrow> Inl e
               | Inr None \<Rightarrow> Inr (g None) | Inr (Some sf) \<Rightarrow> Inr (g (Some i)))"
    for i and g :: "nat option \<Rightarrow> File"
  proof (cases "data_at (data fs) i")
    case (Inl e)
    with at(1) [of i e] show ?thesis by simp
  next
    case (Inr x)
    show ?thesis
    proof (cases "data_at (data fs') i")
      case (Inl e)
      with at(1) [of i e] Inr show ?thesis by simp
    next
      case r: (Inr y)
      with Inr at(2) [of i] show ?thesis by (cases x; cases y) simp_all
    qed
  qed
  consider (rt) "p = ''/''" | (dot) "p \<noteq> ''/''" "p = ''.''" | (other) "p \<noteq> ''/''" "p \<noteq> ''.''"
    by blast
  then show ?thesis
  proof cases
    case rt
    have U: "snd (Open fs'' ''/'') =
            (case data_at (data fs'') (root fs'') of Inl e \<Rightarrow> Inl e
             | Inr None \<Rightarrow> Inr \<lparr>f_name = ''/'', f_flags = 0, f_node = root fs'',
                                  f_data = None, f_offset = 0\<rparr>
             | Inr (Some sf) \<Rightarrow> Inr \<lparr>f_name = ''/'', f_flags = 0, f_node = root fs'',
                                  f_data = Some (root fs''), f_offset = 0\<rparr>)" for fs'' :: FileSystem
      by (simp add: Open_def OpenFile_def O_RDONLY_def split: sum.splits option.splits)
    have "snd (Open fs' ''/'') =
            (case data_at (data fs') (root fs) of Inl e \<Rightarrow> Inl e
             | Inr None \<Rightarrow> Inr \<lparr>f_name = ''/'', f_flags = 0, f_node = root fs,
                                  f_data = None, f_offset = 0\<rparr>
             | Inr (Some sf) \<Rightarrow> Inr \<lparr>f_name = ''/'', f_flags = 0, f_node = root fs,
                                  f_data = Some (root fs), f_offset = 0\<rparr>)"
      using U [of fs'] unfolding r .
    also have "\<dots> = snd (Open fs ''/'')"
      unfolding U [of fs]
      by (rule same [where i = "root fs" and g = "\<lambda>x. \<lparr>f_name = ''/'', f_flags = 0,
                        f_node = root fs, f_data = x, f_offset = 0\<rparr>"])
    finally show ?thesis unfolding rt .
  next
    case dot
    have U: "snd (Open fs'' ''.'') =
            (case data_at (data fs'') (dir fs'') of Inl e \<Rightarrow> Inl e
             | Inr None \<Rightarrow> Inr \<lparr>f_name = ''.'', f_flags = 0, f_node = dir fs'',
                                  f_data = None, f_offset = 0\<rparr>
             | Inr (Some sf) \<Rightarrow> Inr \<lparr>f_name = ''.'', f_flags = 0, f_node = dir fs'',
                                  f_data = Some (dir fs''), f_offset = 0\<rparr>)" for fs'' :: FileSystem
      by (simp add: Open_def OpenFile_def O_RDONLY_def O_APPEND_def Let_def
          split: sum.splits option.splits)
    have "snd (Open fs' ''.'') =
            (case data_at (data fs') (dir fs) of Inl e \<Rightarrow> Inl e
             | Inr None \<Rightarrow> Inr \<lparr>f_name = ''.'', f_flags = 0, f_node = dir fs,
                                  f_data = None, f_offset = 0\<rparr>
             | Inr (Some sf) \<Rightarrow> Inr \<lparr>f_name = ''.'', f_flags = 0, f_node = dir fs,
                                  f_data = Some (dir fs), f_offset = 0\<rparr>)"
      using U [of fs'] unfolding w .
    also have "\<dots> = snd (Open fs ''.'')"
      unfolding U [of fs]
      by (rule same [where i = "dir fs" and g = "\<lambda>x. \<lparr>f_name = ''.'', f_flags = 0,
                        f_node = dir fs, f_data = x, f_offset = 0\<rparr>"])
    finally show ?thesis unfolding dot(2) .
  next
    case other
    have U: "snd (Open fs'' p) =
            (case Resolve (nodes fs'') (root fs'') (if IsAbs p then root fs'' else dir fs'')
                    (Clean (fst (Split p))) of
               Inl err \<Rightarrow> Inl (Errno err)
             | Inr parent \<Rightarrow>
                 (case Resolve (nodes fs'') (root fs'') (if IsAbs p then root fs'' else dir fs'') p of
                    Inr node \<Rightarrow> snd (open_node fs'' p 0 node)
                  | Inl _ \<Rightarrow> Inl (PathError ''open'' p ENOENT)))" for fs'' :: FileSystem
      using other
      by (simp add: Open_def OpenFile_def O_RDONLY_def Let_def split_beta
          open_existing_rdonly open_create_rdonly split: sum.splits)
    have "snd (Open fs' p) =
            (case Resolve (nodes fs) (root fs) (if IsAbs p then root fs else dir fs)
                    (Clean (fst (Split p))) of
               Inl err \<Rightarrow> Inl (Errno err)
             | Inr parent \<Rightarrow>
                 (case Resolve (nodes fs) (root fs) (if IsAbs p then root fs else dir fs) p of
                    Inr node \<Rightarrow> snd (open_node fs p 0 node)
                  | Inl _ \<Rightarrow> Inl (PathError ''open'' p ENOENT)))"
      using U [of fs'] unfolding n r w open_node_result_shape [OF n d] .
    then show ?thesis
      unfolding U [of fs] .
  qed
qed


lemma visit_all_append:
  "visit_all fn (xs @ ys) u =
     (case visit_all fn xs u of
        (u1, Some e) \<Rightarrow> (u1, Some e)
      | (u1, None) \<Rightarrow> visit_all fn ys u1)"
  by (induction xs arbitrary: u) (auto split: prod.splits option.splits)

lemma Walk_loop_empty: "Walk_loop rd fn fs [] u = Some (fs, u, None)"
  by (subst Walk_loop.simps) simp

lemma Walk_loop_stat_fails:
  "Stat fs p = Some (Inl e) \<Longrightarrow> Walk_loop rd fn fs (st @ [p]) u = Some (fs, u, Some e)"
  by (subst Walk_loop.simps) simp

lemma Walk_loop_leaf:
  "Stat fs p = Some (Inr info) \<Longrightarrow> \<not> IsDir (nodes fs (snd info)) \<Longrightarrow>
   Walk_loop rd fn fs (st @ [p]) u =
     (case fn p info u of
        (u1, Some err) \<Rightarrow> Some (fs, u1, Some err)
      | (u1, None) \<Rightarrow> Walk_loop rd fn fs st u1)"
  by (subst Walk_loop.simps) simp

lemma Walk_loop_open_fails:
  "Stat fs p = Some (Inr info) \<Longrightarrow> IsDir (nodes fs (snd info)) \<Longrightarrow>
   Open fs p = (fs1, Inl e) \<Longrightarrow>
   Walk_loop rd fn fs (st @ [p]) u = Some (fs1, u, Some e)"
  by (subst Walk_loop.simps) simp

lemma Walk_loop_readdir_fails:
  "Stat fs p = Some (Inr info) \<Longrightarrow> IsDir (nodes fs (snd info)) \<Longrightarrow>
   Open fs p = (fs1, Inr f) \<Longrightarrow> rd (nodes fs1) f = Inl e \<Longrightarrow>
   Walk_loop rd fn fs (st @ [p]) u = Some (fs1, u, Some e)"
  by (subst Walk_loop.simps) simp

lemma Walk_loop_branch:
  "Stat fs p = Some (Inr info) \<Longrightarrow> IsDir (nodes fs (snd info)) \<Longrightarrow>
   Open fs p = (fs1, Inr f) \<Longrightarrow> rd (nodes fs1) f = Inr names \<Longrightarrow>
   Walk_loop rd fn fs (st @ [p]) u =
     (case fn p info u of
        (u1, Some err) \<Rightarrow> Some (fs1, u1, Some err)
      | (u1, None) \<Rightarrow>
          Walk_loop rd fn fs1
            (st @ map (Join p) (filter (\<lambda>p. \<not> (p = ''..'' \<or> p = ''.'')) (rev (sort names))))
            u1)"
  by (subst Walk_loop.simps) simp


lemma Walk_loop_visits:
  assumes "list_all2 (tree_at rd fs0) (rev stack) ts" and "shape fs = shape fs0"
  shows "\<exists>fs'. shape fs' = shape fs0 \<and>
               Walk_loop rd fn fs stack u = Some (fs', visit_all fn ts u)"
  using assms
proof (induction "sum_list (map tsize ts)" arbitrary: ts stack fs u rule: less_induct)
  case less
  show ?case
  proof (cases ts)
    case Nil
    with less.prems(1) have "stack = []" by simp
    with Nil less.prems(2) show ?thesis by (simp add: Walk_loop_empty)
  next
    case (Cons t ts')
    with less.prems(1) obtain p ps where rs: "rev stack = p # ps"
      and t: "tree_at rd fs0 p t" and rest: "list_all2 (tree_at rd fs0) ps ts'"
      by (auto simp: list_all2_Cons2)
    from rs have stack: "stack = rev ps @ [p]"
      by (metis rev.simps(2) rev_rev_ident)
    have nodes: "nodes fs = nodes fs0"
      using less.prems(2) by (simp add: shape_def)
    have stat: "Stat fs p = Stat fs0 p"
      using less.prems(2) by (rule Stat_shape)
    obtain fs1 r where op: "Open fs p = (fs1, r)"
      by (cases "Open fs p")
    have r: "r = snd (Open fs0 p)"
      using Open_result_shape [OF less.prems(2), of p] op by simp
    have fs1: "shape fs1 = shape fs0"
      using Open_keeps_shape [of fs p] op less.prems(2) by simp
    then have nodes1: "nodes fs1 = nodes fs0"
      by (simp add: shape_def)
    have smaller: "sum_list (map tsize ts') < sum_list (map tsize ts)"
      using Cons by (cases t) simp_all
    have continue: "\<exists>fs'. shape fs' = shape fs0 \<and>
                      Walk_loop rd fn fs (rev ps) u1 = Some (fs', visit_all fn ts' u1)" for u1
      using less.hyps [OF smaller, of "rev ps" fs u1] rest less.prems(2) by simp
    from t show ?thesis
    proof cases
      case (stat_fails e)
      then show ?thesis
        using Walk_loop_stat_fails [of fs p e rd fn "rev ps" u] stat less.prems(2) Cons stack
        by simp
    next
      case (leaf info)
      have "Walk_loop rd fn fs stack u =
              (case fn p info u of
                 (u1, Some err) \<Rightarrow> Some (fs, u1, Some err)
               | (u1, None) \<Rightarrow> Walk_loop rd fn fs (rev ps) u1)"
        unfolding stack using leaf stat nodes by (intro Walk_loop_leaf) simp_all
      then show ?thesis
        using continue less.prems(2) leaf(1) Cons
        by (auto split: prod.splits option.splits)
    next
      case (open_fails info e)
      have "Walk_loop rd fn fs stack u = Some (fs1, u, Some e)"
        unfolding stack using open_fails stat nodes op r
        by (intro Walk_loop_open_fails [where info = info]) simp_all
      then show ?thesis
        using fs1 open_fails(1) Cons by simp
    next
      case (readdir_fails info f e)
      have "Walk_loop rd fn fs stack u = Some (fs1, u, Some e)"
        unfolding stack using readdir_fails stat nodes nodes1 op r
        by (intro Walk_loop_readdir_fails [where info = info and f = f]) simp_all
      then show ?thesis
        using fs1 readdir_fails(1) Cons by simp
    next
      case (branch info f names cs)
      let ?kids = "map (Join p) (filter (\<lambda>p. \<not> (p = ''..'' \<or> p = ''.'')) (sort names))"
      have step: "Walk_loop rd fn fs stack u =
              (case fn p info u of
                 (u1, Some err) \<Rightarrow> Some (fs1, u1, Some err)
               | (u1, None) \<Rightarrow>
                   Walk_loop rd fn fs1
                     (rev ps @ map (Join p)
                        (filter (\<lambda>p. \<not> (p = ''..'' \<or> p = ''.'')) (rev (sort names))))
                     u1)"
        unfolding stack using branch stat nodes nodes1 op r
        by (intro Walk_loop_branch [where info = info and f = f]) simp_all
      have rv: "rev (rev ps @ map (Join p)
                  (filter (\<lambda>p. \<not> (p = ''..'' \<or> p = ''.'')) (rev (sort names)))) = ?kids @ ps"
        by (simp add: rev_map rev_filter)
      have forest: "list_all2 (tree_at rd fs0) (?kids @ ps) (cs @ ts')"
        using branch(6) rest by (rule list_all2_appendI)
      have less': "sum_list (map tsize (cs @ ts')) < sum_list (map tsize ts)"
        using Cons branch(1) by simp
      have deeper: "\<exists>fs'. shape fs' = shape fs0 \<and>
              Walk_loop rd fn fs1
                (rev ps @ map (Join p)
                   (filter (\<lambda>p. \<not> (p = ''..'' \<or> p = ''.'')) (rev (sort names)))) u1
                = Some (fs', visit_all fn (cs @ ts') u1)" for u1
        using less.hyps [OF less', of _ fs1 u1] forest fs1 unfolding rv [symmetric] by blast
      show ?thesis
      proof (cases "fn p info u")
        case (Pair u1 err)
        show ?thesis
        proof (cases err)
          case None
          with Pair step deeper [of u1] Cons branch(1) show ?thesis
            by (auto simp: visit_all_append)
        next
          case (Some e)
          with Pair step fs1 Cons branch(1) show ?thesis by simp
        qed
      qed
    qed
  qed
qed

text \<open>
  Claim C8. \<open>Walk(name, fn)\<close> invokes the visitor in depth-first pre-order. Whenever
  the filesystem below \<open>name\<close> is a finite tree \<open>t\<close>, whose directories have their
  children in ascending lexicographic order with \<open>.\<close> and \<open>..\<close> left out, the walk
  returns, and what it returns and what the visitor has done are those of the pre-order
  traversal of \<open>t\<close>: each directory is visited before its children, the children in
  their order, and the first error of the visitor ends the walk and is its result. The
  filesystem is left as it was but for the handles stored by \<open>Open\<close>.
\<close>

theorem Walk_preorder:
  assumes "tree_at rd fs name' t"
  shows "\<exists>fs'. shape fs' = shape fs \<and> Walk rd fn fs name' u = Some (fs', visit fn t u)"
proof -
  have "list_all2 (tree_at rd fs) (rev ([] @ [name'])) [t]"
    using assms by simp
  from Walk_loop_visits [OF this refl, of fn u]
  show ?thesis
    by (auto simp: Walk_def split: prod.splits option.splits)
qed


text \<open>
  With a directory \<open>/b\<close> holding a file \<open>c\<close>, and a file \<open>/a\<close>: a visitor that
  records its paths sees \<open>/\<close>, \<open>/a\<close>, \<open>/b\<close>, \<open>/b/c\<close>. When the handle lists
  every name of a directory, \<open>.\<close> and \<open>..\<close> included and the last name first, the
  tree is the same, and a visitor that fails at \<open>/b\<close> ends the walk there with its
  error.
\<close>

theorem Walk_preorder_witness:
  "tree_at Readdirnames
     (fst (Create (fst (Create (fst (Mkdir NewFS ''/b'' 493)) ''/b/c'')) ''/a'')) ''/''
     (Branch ''/'' (''/'', 1)
        [Leaf ''/a'' (''a'', 4), Branch ''/b'' (''b'', 2) [Leaf ''/b/c'' (''c'', 3)]]) \<and>
   map_option snd
     (Walk Readdirnames (\<lambda>p i u. (u @ [p], None))
        (fst (Create (fst (Create (fst (Mkdir NewFS ''/b'' 493)) ''/b/c'')) ''/a'')) ''/'' [])
     = Some ([''/'', ''/a'', ''/b'', ''/b/c''], None) \<and>
   tree_at (\<lambda>ns f. Inr (rev (map fst (Dir (ns (f_node f))))))
     (fst (Create (fst (Create (fst (Mkdir NewFS ''/b'' 493)) ''/b/c'')) ''/a'')) ''/''
     (Branch ''/'' (''/'', 1)
        [Leaf ''/a'' (''a'', 4), Branch ''/b'' (''b'', 2) [Leaf ''/b/c'' (''c'', 3)]]) \<and>
   map_option snd
     (Walk (\<lambda>ns f. Inr (rev (map fst (Dir (ns (f_node f))))))
        (\<lambda>p i u. (u @ [p], if p = ''/b'' then Some (Errno (ErrText ''stop'')) else None))
        (fst (Create (fst (Create (fst (Mkdir NewFS ''/b'' 493)) ''/b/c'')) ''/a'')) ''/'' [])
     = Some ([''/'', ''/a'', ''/b''], Some (Errno (ErrText ''stop'')))"
proof -
  define fs where "fs = fst (Create (fst (Create (fst (Mkdir NewFS ''/b'' 493)) ''/b/c'')) ''/a'')"
  define rd2 :: "(nat \<Rightarrow> Inode) \<Rightarrow> File \<Rightarrow> error + string list"
    where "rd2 = (\<lambda>ns f. Inr (rev (map fst (Dir (ns (f_node f))))))"
  have s0: "Stat fs ''/'' = Some (Inr (''/'', 1))"
    and sa: "Stat fs ''/a'' = Some (Inr (''a'', 4))"
    and sb: "Stat fs ''/b'' = Some (Inr (''b'', 2))"
    and sc: "Stat fs ''/b/c'' = Some (Inr (''c'', 3))"
    unfolding fs_def by code_simp+
  have d0: "IsDir (nodes fs 1)" and da: "\<not> IsDir (nodes fs 4)"
    and db: "IsDir (nodes fs 2)" and dc: "\<not> IsDir (nodes fs 3)"
    unfolding fs_def by code_simp+
  have o0: "snd (Open fs ''/'')
              = Inr \<lparr>f_name = ''/'', f_flags = 0, f_node = 1, f_data = None, f_offset = 0\<rparr>"
    and ob: "snd (Open fs ''/b'')
              = Inr \<lparr>f_name = ''/b'', f_flags = 0, f_node = 2, f_data = Some 2, f_offset = 0\<rparr>"
    unfolding fs_def by code_simp+
  have r0: "Readdirnames (nodes fs)
              \<lparr>f_name = ''/'', f_flags = 0, f_node = 1, f_data = None, f_offset = 0\<rparr>
              = Inr [''a'', ''b'']"
    and rb: "Readdirnames (nodes fs)
              \<lparr>f_name = ''/b'', f_flags = 0, f_node = 2, f_data = Some 2, f_offset = 0\<rparr>
              = Inr [''c'']"
    unfolding fs_def by code_simp+
  have q0: "rd2 (nodes fs)
              \<lparr>f_name = ''/'', f_flags = 0, f_node = 1, f_data = None, f_offset = 0\<rparr>
              = Inr [''b'', ''a'', ''..'', ''.'']"
    and qb: "rd2 (nodes fs)
              \<lparr>f_name = ''/b'', f_flags = 0, f_node = 2, f_data = Some 2, f_offset = 0\<rparr>
              = Inr [''c'', ''..'', ''.'']"
    unfolding fs_def rd2_def by code_simp+
  have k0: "map (Join ''/'') (filter (\<lambda>p. \<not> (p = ''..'' \<or> p = ''.'')) (sort [''a'', ''b'']))
              = [''/a'', ''/b'']"
    and kb: "map (Join ''/b'') (filter (\<lambda>p. \<not> (p = ''..'' \<or> p = ''.'')) (sort [''c'']))
              = [''/b/c'']"
    and h0: "map (Join ''/'')
               (filter (\<lambda>p. \<not> (p = ''..'' \<or> p = ''.'')) (sort [''b'', ''a'', ''..'', ''.'']))
              = [''/a'', ''/b'']"
    and hb: "map (Join ''/b'')
               (filter (\<lambda>p. \<not> (p = ''..'' \<or> p = ''.'')) (sort [''c'', ''..'', ''.'']))
              = [''/b/c'']"
    by code_simp+
  have ta: "tree_at rd fs ''/a'' (Leaf ''/a'' (''a'', 4))" for rd
    using sa da by (intro tree_at.leaf) simp_all
  have tc: "tree_at rd fs ''/b/c'' (Leaf ''/b/c'' (''c'', 3))" for rd
    using sc dc by (intro tree_at.leaf) simp_all
  have tb: "tree_at Readdirnames fs ''/b'' (Branch ''/b'' (''b'', 2) [Leaf ''/b/c'' (''c'', 3)])"
  proof (rule tree_at.branch [where names = "[''c'']"])
    show "list_all2 (tree_at Readdirnames fs)
            (map (Join ''/b'') (filter (\<lambda>p. \<not> (p = ''..'' \<or> p = ''.'')) (sort [''c''])))
            [Leaf ''/b/c'' (''c'', 3)]"
      unfolding kb using tc by simp
  qed (use sb db ob rb in simp_all)
  have t0: "tree_at Readdirnames fs ''/''
              (Branch ''/'' (''/'', 1)
                 [Leaf ''/a'' (''a'', 4), Branch ''/b'' (''b'', 2) [Leaf ''/b/c'' (''c'', 3)]])"
  proof (rule tree_at.branch [where names = "[''a'', ''b'']"])
    show "list_all2 (tree_at Readdirnames fs)
            (map (Join ''/'') (filter (\<lambda>p. \<not> (p = ''..'' \<or> p = ''.'')) (sort [''a'', ''b''])))
            [Leaf ''/a'' (''a'', 4), Branch ''/b'' (''b'', 2) [Leaf ''/b/c'' (''c'', 3)]]"
      unfolding k0 using ta tb by simp
  qed (use s0 d0 o0 r0 in simp_all)
  have ub: "tree_at rd2 fs ''/b'' (Branch ''/b'' (''b'', 2) [Leaf ''/b/c'' (''c'', 3)])"
  proof (rule tree_at.branch [where names = "[''c'', ''..'', ''.'']"])
    show "list_all2 (tree_at rd2 fs)
            (map (Join ''/b'')
               (filter (\<lambda>p. \<not> (p = ''..'' \<or> p = ''.'')) (sort [''c'', ''..'', ''.''])))
            [Leaf ''/b/c'' (''c'', 3)]"
      unfolding hb using tc by simp
  qed (use sb db ob qb in simp_all)
  have u0: "tree_at rd2 fs ''/''
              (Branch ''/'' (''/'', 1)
                 [Leaf ''/a'' (''a'', 4), Branch ''/b'' (''b'', 2) [Leaf ''/b/c'' (''c'', 3)]])"
  proof (rule tree_at.branch [where names = "[''b'', ''a'', ''..'', ''.'']"])
    show "list_all2 (tree_at rd2 fs)
            (map (Join ''/'')
               (filter (\<lambda>p. \<not> (p = ''..'' \<or> p = ''.'')) (sort [''b'', ''a'', ''..'', ''.''])))
            [Leaf ''/a'' (''a'', 4), Branch ''/b'' (''b'', 2) [Leaf ''/b/c'' (''c'', 3)]]"
      unfolding h0 using ta ub by simp
  qed (use s0 d0 o0 q0 in simp_all)
  from Walk_preorder [OF t0, of "\<lambda>p i u. (u @ [p], None)" "[]"]
  have w1: "map_option snd (Walk Readdirnames (\<lambda>p i u. (u @ [p], None)) fs ''/'' [])
              = Some ([''/'', ''/a'', ''/b'', ''/b/c''], None)"
    by auto
  from Walk_preorder [OF u0,
      of "\<lambda>p i u. (u @ [p], if p = ''/b'' then Some (Errno (ErrText ''stop'')) else None)" "[]"]
  have w2: "map_option snd
              (Walk rd2
                 (\<lambda>p i u. (u @ [p], if p = ''/b'' then Some (Errno (ErrText ''stop'')) else None))
                 fs ''/'' [])
              = Some ([''/'', ''/a'', ''/b''], Some (Errno (ErrText ''stop'')))"
    by auto
  from t0 w1 u0 w2 show ?thesis unfolding fs_def rd2_def by blast
qed

end
